theory Spec2Isabelle
  imports Main
begin

section \<open>Exceptions, stored text and the shared engine state\<close>

text \<open>
  The three containers of \<^verbatim>\<open>sqlite_object\<close> (\<^verbatim>\<open>SqliteList\<close>, \<^verbatim>\<open>SqliteDict\<close>,
  \<^verbatim>\<open>SqliteSet\<close>) are Python classes that keep their contents in one SQLite table each.
  A method is embedded as a function from the object's state to a result and the new
  state; an exception is the left summand of the result. The constructors of \<open>error\<close>
  are the Python exception classes the methods raise, with the message (or, for
  \<open>NameError\<close>, the unbound name) as argument.
\<close>

datatype error =
    KeyError string
  | IndexError string
  | TypeError string
  | NameError string
  | ValueError string
  | IntegrityError string
  | OperationalError string

type_synonym sqltext = string

text \<open>
  The engine calls that change the connection's state, in the order the code issues
  them. Queries (\<^verbatim>\<open>SELECT\<close>) change nothing and are not recorded. The argument of a
  statement is the name of the table it addresses. \<open>Failed\<close> is a data statement that the
  engine has started and then refused (a constraint error): it changes no row, but the
  connection has begun its implicit transaction for it. A statement that is refused
  before it starts (no such table, a \<^verbatim>\<open>BEGIN\<close> inside a transaction) is not recorded.
\<close>

datatype sql =
    BEGIN_TRANSACTION
  | END_TRANSACTION
  | INSERT_INTO string
  | INSERT_OR_IGNORE_INTO string
  | REPLACE_INTO string
  | DELETE_FROM string

datatype event = Execute sql | Failed sql | Db_commit | Do_write

text \<open>
  The attributes every container object has: the coder and decoder (Python values of
  type \<open>'a\<close> to stored text and back), the commit threshold, the write counter, the name of
  the container's table, and the record of the engine calls made on its connection so
  far. The connection is opened in \<^verbatim>\<open>_sqlite_object.py\<close>, which is not among the sources, so
  the \<^verbatim>\<open>isolation_level\<close> it is opened with is a parameter: \<open>None\<close> is the autocommit mode of
  \<^verbatim>\<open>sqlite3\<close>, anything else (the default of \<^verbatim>\<open>sqlite3.connect\<close> is the empty string) makes the
  connection begin a transaction before a data statement.
\<close>

record 'a SqliteObject =
  coder :: "'a \<Rightarrow> sqltext"
  decoder :: "sqltext \<Rightarrow> 'a"
  commit_every :: nat
  write_count :: nat
  table_name :: string
  isolation_level :: "string option"
  log :: "event list"

text \<open>
  Whether a transaction is open on the connection, after one more engine call and after
  all the calls recorded: \<^verbatim>\<open>BEGIN\<close> opens one, a commit closes it, and a data statement
  opens one unless the connection is in autocommit mode.
\<close>

fun tx_step :: "string option \<Rightarrow> bool \<Rightarrow> event \<Rightarrow> bool" where
  "tx_step lvl tx (Execute BEGIN_TRANSACTION) = True"
| "tx_step lvl tx (Execute END_TRANSACTION) = False"
| "tx_step lvl tx (Execute stmt) = (case lvl of None \<Rightarrow> tx | Some l \<Rightarrow> True)"
| "tx_step lvl tx (Failed stmt) = (case lvl of None \<Rightarrow> tx | Some l \<Rightarrow> True)"
| "tx_step lvl tx Db_commit = False"
| "tx_step lvl tx Do_write = tx"

definition in_transaction :: "('a, 'z) SqliteObject_scheme \<Rightarrow> bool" where
  "in_transaction s = foldl (tx_step (isolation_level s)) False (log s)"

text \<open>
  Modelled from the spec: \<^verbatim>\<open>SqliteObject._do_write\<close> is defined in
  \<^verbatim>\<open>_sqlite_object.py\<close>, which is not among the sources. The specification of
  \<^verbatim>\<open>record_write\<close> says that it increments an internal counter and, once the counter
  reaches \<^verbatim>\<open>commit_every\<close> (0 meaning a commit after every mutation), issues a commit
  and resets the counter.
\<close>

definition do_write :: "('a, 'z) SqliteObject_scheme \<Rightarrow> ('a, 'z) SqliteObject_scheme" where
  "do_write s =
     (let s1 = s\<lparr>write_count := write_count s + 1, log := log s @ [Do_write]\<rparr>
      in if commit_every s1 \<le> write_count s1
         then s1\<lparr>write_count := 0, log := log s1 @ [Db_commit]\<rparr>
         else s1)"

section \<open>The sequence container \<^verbatim>\<open>SqliteList\<close>\<close>

subsection \<open>The table and its statements\<close>

text \<open>
  A table with the schema \<^verbatim>\<open>(list_index INTEGER PRIMARY KEY, value TEXT)\<close> is the list
  of its rows. \<^verbatim>\<open>list_index\<close> is a 64-bit signed integer in SQLite; an SQL expression
  that is \<^verbatim>\<open>NULL\<close> is \<open>None\<close>.
\<close>

type_synonym list_table = "(int \<times> sqltext) list"

definition i64_max :: int where
  "i64_max = 9223372036854775807"

definition i64_min :: int where
  "i64_min = - 9223372036854775808"

definition sql_count :: "'r list \<Rightarrow> int" where
  "sql_count t = int (length t)"

definition sql_min :: "list_table \<Rightarrow> int option" where
  "sql_min t = (if t = [] then None else Some (Min (set (map fst t))))"

definition sql_max :: "list_table \<Rightarrow> int option" where
  "sql_max t = (if t = [] then None else Some (Max (set (map fst t))))"

text \<open>
  \<^verbatim>\<open>SELECT value FROM t WHERE list_index = p\<close> followed by \<^verbatim>\<open>fetchone()\<close>: the value of
  the first row found, \<open>None\<close> when there is no row (a comparison with \<^verbatim>\<open>NULL\<close> selects
  nothing).
\<close>

definition sql_select_value :: "list_table \<Rightarrow> int option \<Rightarrow> sqltext option" where
  "sql_select_value t p = (case p of None \<Rightarrow> None | Some q \<Rightarrow> map_of t q)"

text \<open>\<^verbatim>\<open>DELETE FROM t WHERE list_index = p\<close>.\<close>

definition sql_delete_index :: "list_table \<Rightarrow> int option \<Rightarrow> list_table" where
  "sql_delete_index t p = filter (\<lambda>r. Some (fst r) \<noteq> p) t"

text \<open>
  The row id SQLite gives to a row inserted with a \<^verbatim>\<open>NULL\<close> primary key: 1 in an empty
  table, else one more than the largest.
\<close>

definition auto_rowid :: "list_table \<Rightarrow> int" where
  "auto_rowid t = (case sql_max t of None \<Rightarrow> 1 | Some m \<Rightarrow> m + 1)"

text \<open>
  \<^verbatim>\<open>INSERT INTO t (list_index, value) VALUES (p, v)\<close>, where \<open>p\<close> is the value of an
  integer expression computed without bound. A value outside the 64-bit range has
  become a float in SQLite and is refused as a row id, and so is a row id already in
  the table. For \<^verbatim>\<open>NULL\<close> the engine chooses the row id; the expressions of the methods
  are \<^verbatim>\<open>NULL\<close> only when the table is empty.
\<close>

definition sql_insert :: "list_table \<Rightarrow> int option \<Rightarrow> sqltext \<Rightarrow> error + list_table" where
  "sql_insert t p v =
     (case p of
        None \<Rightarrow> Inr (t @ [(auto_rowid t, v)])
      | Some q \<Rightarrow>
          if q < i64_min \<or> i64_max < q then Inl (IntegrityError ''datatype mismatch'')
          else if q \<in> set (map fst t) then Inl (IntegrityError ''UNIQUE constraint failed'')
          else Inr (t @ [(q, v)]))"

text \<open>
  \<^verbatim>\<open>REPLACE INTO t (list_index, value) VALUES (p, v)\<close>: as the insertion, but a row with
  the same index is deleted first.
\<close>

definition sql_replace :: "list_table \<Rightarrow> int option \<Rightarrow> sqltext \<Rightarrow> error + list_table" where
  "sql_replace t p v = sql_insert (sql_delete_index t p) p v"

subsection \<open>The object\<close>

text \<open>
  \<open>list_rows\<close> is the table named \<open>table_name\<close>, which the constructor creates;
  \<open>list_others\<close> are the other tables of this schema in the same database file, by name.
\<close>

record 'a SqliteList = "'a SqliteObject" +
  list_rows :: list_table
  list_others :: "string \<Rightarrow> list_table option"

definition lookup_table :: "'a SqliteList \<Rightarrow> string \<Rightarrow> list_table option" where
  "lookup_table s n = (if n = table_name s then Some (list_rows s) else list_others s n)"

definition store_table :: "'a SqliteList \<Rightarrow> string \<Rightarrow> list_table \<Rightarrow> 'a SqliteList" where
  "store_table s n t =
     (if n = table_name s then s\<lparr>list_rows := t\<rparr>
      else s\<lparr>list_others := (list_others s)(n \<mapsto> t)\<rparr>)"

text \<open>The key of \<^verbatim>\<open>__getitem__\<close> and \<^verbatim>\<open>__setitem__\<close>: an \<^verbatim>\<open>int\<close>, a \<^verbatim>\<open>slice\<close> with its
  three optional components, or an object of another type (with the text of its type).\<close>

datatype pykey =
    IntKey int
  | SliceKey "int option" "int option" "int option"
  | OtherKey string

text \<open>What \<^verbatim>\<open>__getitem__\<close> returns: a decoded value, or for a slice the generator
  \<^verbatim>\<open>_iterate(length, irange)\<close>, which has fetched nothing yet.\<close>

datatype 'a item = Value 'a | Generator int "int list"

definition getlen :: "'a SqliteList \<Rightarrow> int" where
  "getlen s = sql_count (list_rows s)"

definition SqliteList_len :: "'a SqliteList \<Rightarrow> int" where
  "SqliteList_len s = getlen s"

text \<open>Python's \<^verbatim>\<open>range(a, b, st)\<close> for \<open>st \<noteq> 0\<close>, and \<^verbatim>\<open>range(length)[start:stop:step]\<close>.\<close>

definition py_range :: "int \<Rightarrow> int \<Rightarrow> int \<Rightarrow> int list" where
  "py_range a b st =
     (let n = (if 0 < st then (if a < b then nat ((b - a - 1) div st + 1) else 0)
               else (if b < a then nat ((a - b - 1) div (- st) + 1) else 0))
      in map (\<lambda>k. a + int k * st) [0..<n])"

definition range_slice :: "int \<Rightarrow> int option \<Rightarrow> int option \<Rightarrow> int option \<Rightarrow> error + int list" where
  "range_slice len start stop step =
     (let st = (case step of None \<Rightarrow> 1 | Some k \<Rightarrow> k) in
      if st = 0 then Inl (ValueError ''slice step cannot be zero'')
      else
        let lower = (if st < 0 then - 1 else 0);
            upper = (if st < 0 then len - 1 else len);
            a = (case start of
                   None \<Rightarrow> (if st < 0 then upper else lower)
                 | Some x \<Rightarrow> (if x < 0 then max (x + len) lower else min x upper));
            b = (case stop of
                   None \<Rightarrow> (if st < 0 then lower else upper)
                 | Some x \<Rightarrow> (if x < 0 then max (x + len) lower else min x upper))
        in Inr (py_range a b st))"

text \<open>\<^verbatim>\<open>SqliteList.__getitem__\<close>. \<^verbatim>\<open>cursor.fetchone()[0]\<close> raises \<^verbatim>\<open>TypeError\<close> when the
  query found no row.\<close>

fun SqliteList_getitem :: "'a SqliteList \<Rightarrow> pykey \<Rightarrow> error + 'a item" where
  "SqliteList_getitem s (SliceKey start stop step) =
     (case range_slice (getlen s) start stop step of
        Inl e \<Rightarrow> Inl e
      | Inr irange \<Rightarrow> Inr (Generator (getlen s) irange))"
| "SqliteList_getitem s (OtherKey ty) = Inl (TypeError (''Key should be int, got '' @ ty))"
| "SqliteList_getitem s (IntKey key) =
     (let len = getlen s in
      if len \<le> key then Inl (IndexError ''Sequence index out of range.'')
      else
        let key' = (if key < 0 then len + key else key) in
        if key < 0 \<and> len \<le> key' then Inl (IndexError ''Sequence index out of range.'')
        else if key < 0 \<and> key' < 0 then Inl (IndexError ''Sequence index out of range.'')
        else
          (case sql_select_value (list_rows s)
                  (map_option (\<lambda>m. m + key') (sql_min (list_rows s))) of
             None \<Rightarrow> Inl (TypeError ''NoneType object is not subscriptable'')
           | Some t \<Rightarrow> Inr (Value (decoder s t))))"

text \<open>\<^verbatim>\<open>SqliteList._iterate\<close>: one \<^verbatim>\<open>next\<close> of the generator, on the state the container
  has at that moment. \<open>None\<close> is \<^verbatim>\<open>StopIteration\<close>; otherwise the result of \<^verbatim>\<open>self[i]\<close>
  and the indices still to come.\<close>

fun iterate_next :: "'a SqliteList \<Rightarrow> int \<Rightarrow> int list \<Rightarrow> ((error + 'a item) \<times> int list) option" where
  "iterate_next s len [] = None"
| "iterate_next s len (i # irange) =
     (if 0 \<le> i \<and> i < len then Some (SqliteList_getitem s (IntKey i), irange)
      else iterate_next s len irange)"

text \<open>The generator run to its end while the container does not change. An exception
  of \<^verbatim>\<open>self[i]\<close> ends it.\<close>

fun iterate :: "'a SqliteList \<Rightarrow> int \<Rightarrow> int list \<Rightarrow> (error + 'a item) list" where
  "iterate s len [] = []"
| "iterate s len (i # irange) =
     (if 0 \<le> i \<and> i < len then
        (case SqliteList_getitem s (IntKey i) of
           Inl e \<Rightarrow> [Inl e]
         | Inr v \<Rightarrow> Inr v # iterate s len irange)
      else iterate s len irange)"

text \<open>\<^verbatim>\<open>SqliteList.__setitem__\<close>. The statement names the table \<^verbatim>\<open>list\<close>, whatever
  \<open>table_name\<close> is; only the subquery for the smallest index names \<open>table_name\<close>.\<close>

definition SqliteList_setitem :: "'a SqliteList \<Rightarrow> pykey \<Rightarrow> 'a \<Rightarrow> (error + unit) \<times> 'a SqliteList" where
  "SqliteList_setitem s k val =
     (case k of
        IntKey key \<Rightarrow>
          (let key' = (if key < 0 then SqliteList_len s + key else key) in
           if key < 0 \<and> key' < 0 then (Inl (IndexError ''Sequence index out of range.''), s)
           else if SqliteList_len s \<le> key' then (Inl (IndexError ''Sequence index out of range.''), s)
           else
             (case lookup_table s ''list'' of
                None \<Rightarrow> (Inl (OperationalError ''no such table: list''), s)
              | Some t \<Rightarrow>
                  (case sql_replace t (map_option (\<lambda>m. m + key') (sql_min (list_rows s)))
                          (coder s val) of
                     Inl e \<Rightarrow> (Inl e, s\<lparr>log := log s @ [Failed (REPLACE_INTO ''list'')]\<rparr>)
                   | Inr t' \<Rightarrow>
                       (Inr (),
                        do_write ((store_table s ''list'' t')
                          \<lparr>log := log s @ [Execute (REPLACE_INTO ''list'')]\<rparr>)))))
      | SliceKey start stop step \<Rightarrow> (Inl (TypeError ''Key should be int, got <class 'slice'>''), s)
      | OtherKey ty \<Rightarrow> (Inl (TypeError (''Key should be int, got '' @ ty)), s))"

text \<open>\<^verbatim>\<open>SqliteList.append\<close> and \<^verbatim>\<open>SqliteList.prepend\<close>. In an empty table the index
  expression is \<^verbatim>\<open>NULL\<close>.\<close>

definition SqliteList_append :: "'a SqliteList \<Rightarrow> 'a \<Rightarrow> (error + unit) \<times> 'a SqliteList" where
  "SqliteList_append s x =
     (case sql_insert (list_rows s) (map_option (\<lambda>m. m + 1) (sql_max (list_rows s)))
             (coder s x) of
        Inl e \<Rightarrow> (Inl e, s\<lparr>log := log s @ [Failed (INSERT_INTO (table_name s))]\<rparr>)
      | Inr t \<Rightarrow>
          (Inr (),
           do_write (s\<lparr>log := log s @ [Execute (INSERT_INTO (table_name s))], list_rows := t\<rparr>)))"

definition SqliteList_prepend :: "'a SqliteList \<Rightarrow> 'a \<Rightarrow> (error + unit) \<times> 'a SqliteList" where
  "SqliteList_prepend s x =
     (case sql_insert (list_rows s) (map_option (\<lambda>m. m - 1) (sql_min (list_rows s)))
             (coder s x) of
        Inl e \<Rightarrow> (Inl e, s\<lparr>log := log s @ [Failed (INSERT_INTO (table_name s))]\<rparr>)
      | Inr t \<Rightarrow>
          (Inr (),
           do_write (s\<lparr>log := log s @ [Execute (INSERT_INTO (table_name s))], list_rows := t\<rparr>)))"

text \<open>\<^verbatim>\<open>SqliteList.pop_last\<close> and \<^verbatim>\<open>SqliteList.pop_first\<close>. The engine refuses
  \<^verbatim>\<open>BEGIN TRANSACTION\<close> when a transaction is open on the connection. In the branch for
  the empty table the name \<^verbatim>\<open>cusror\<close> is not bound: evaluating it raises \<^verbatim>\<open>NameError\<close>, and
  neither the \<^verbatim>\<open>END TRANSACTION\<close> nor the \<^verbatim>\<open>raise IndexError\<close> after it is reached.\<close>

definition SqliteList_pop_last :: "'a SqliteList \<Rightarrow> (error + 'a) \<times> 'a SqliteList" where
  "SqliteList_pop_last s =
     (if in_transaction s
      then (Inl (OperationalError ''cannot start a transaction within a transaction''), s)
      else
        let s1 = s\<lparr>log := log s @ [Execute BEGIN_TRANSACTION]\<rparr> in
        if getlen s1 < 1 then (Inl (NameError ''cusror''), s1)
        else
          (case sql_select_value (list_rows s1) (sql_max (list_rows s1)) of
             None \<Rightarrow> (Inl (TypeError ''NoneType object is not subscriptable''), s1)
           | Some t \<Rightarrow>
               (Inr (decoder s1 t),
                do_write (s1\<lparr>log := log s1 @ [Execute (DELETE_FROM (table_name s1)), Db_commit],
                             list_rows := sql_delete_index (list_rows s1) (sql_max (list_rows s1))\<rparr>))))"

definition SqliteList_pop_first :: "'a SqliteList \<Rightarrow> (error + 'a) \<times> 'a SqliteList" where
  "SqliteList_pop_first s =
     (if in_transaction s
      then (Inl (OperationalError ''cannot start a transaction within a transaction''), s)
      else
        let s1 = s\<lparr>log := log s @ [Execute BEGIN_TRANSACTION]\<rparr> in
        if getlen s1 < 1 then (Inl (NameError ''cusror''), s1)
        else
          (case sql_select_value (list_rows s1) (sql_min (list_rows s1)) of
             None \<Rightarrow> (Inl (TypeError ''NoneType object is not subscriptable''), s1)
           | Some t \<Rightarrow>
               (Inr (decoder s1 t),
                do_write (s1\<lparr>log := log s1 @ [Execute (DELETE_FROM (table_name s1)), Db_commit],
                             list_rows := sql_delete_index (list_rows s1) (sql_min (list_rows s1))\<rparr>))))"

text \<open>\<^verbatim>\<open>SqliteList.clear\<close>: the statement, and no call of \<^verbatim>\<open>_do_write\<close>.\<close>

definition SqliteList_clear :: "'a SqliteList \<Rightarrow> (error + unit) \<times> 'a SqliteList" where
  "SqliteList_clear s =
     (Inr (), s\<lparr>log := log s @ [Execute (DELETE_FROM (table_name s))], list_rows := []\<rparr>)"

text \<open>\<^verbatim>\<open>SqliteList.__iter__\<close>, run to its end: the decoded values in the order of
  \<^verbatim>\<open>list_index\<close>.\<close>

definition SqliteList_iter :: "'a SqliteList \<Rightarrow> 'a list" where
  "SqliteList_iter s = map (\<lambda>r. decoder s (snd r)) (sort_key fst (list_rows s))"

text \<open>\<^verbatim>\<open>SqliteList.__init__\<close> with the default name formats. \<open>file\<close> are the tables the
  database file holds already (none in a new file); \<^verbatim>\<open>CREATE TABLE IF NOT EXISTS\<close> keeps
  an existing table. \<open>isolation\<close> is the isolation level of the new connection, on which no
  engine call has been made yet. The items of \<^verbatim>\<open>init_list\<close> are appended one by one.\<close>

fun append_all :: "'a SqliteList \<Rightarrow> 'a list \<Rightarrow> (error + unit) \<times> 'a SqliteList" where
  "append_all s [] = (Inr (), s)"
| "append_all s (x # xs) =
     (case SqliteList_append s x of
        (Inl e, s') \<Rightarrow> (Inl e, s')
      | (Inr u, s') \<Rightarrow> append_all s' xs)"

definition SqliteList_table_name :: "string option \<Rightarrow> string" where
  "SqliteList_table_name name =
     (case name of
        None \<Rightarrow> ''list''
      | Some n \<Rightarrow> (if n = [] then ''list'' else n @ ''_list_table''))"

definition SqliteList_init ::
  "'a list \<Rightarrow> (string \<Rightarrow> list_table option) \<Rightarrow> ('a \<Rightarrow> sqltext) \<Rightarrow> (sqltext \<Rightarrow> 'a) \<Rightarrow> nat \<Rightarrow> string option
     \<Rightarrow> string option \<Rightarrow> (error + unit) \<times> 'a SqliteList" where
  "SqliteList_init init_list file c d every name isolation =
     append_all
       \<lparr>coder = c, decoder = d, commit_every = every, write_count = 0,
        table_name = SqliteList_table_name name, isolation_level = isolation, log = [],
        list_rows = (case file (SqliteList_table_name name) of None \<Rightarrow> [] | Some t \<Rightarrow> t),
        list_others = file\<rparr>
       init_list"

section \<open>The key/value container \<^verbatim>\<open>SqliteDict\<close>\<close>

text \<open>
  The table \<^verbatim>\<open>(key TEXT PRIMARY KEY, value TEXT)\<close> is the list of its rows in the order
  a scan of the table returns them. Every statement of the class addresses the table
  \<open>table_name\<close>, which is \<open>dict_rows\<close>. Keys and values are Python objects of the one
  type \<open>'a\<close>, encoded by the same coder; a key can also be a \<^verbatim>\<open>slice\<close>, which the
  methods refuse.
\<close>

type_synonym dict_table = "(sqltext \<times> sqltext) list"

record 'a SqliteDict = "'a SqliteObject" +
  dict_rows :: dict_table

datatype 'a pyobj = Obj 'a | Slice


definition SqliteDict_getitem :: "'a SqliteDict \<Rightarrow> 'a pyobj \<Rightarrow> error + 'a" where
  "SqliteDict_getitem s k =
     (case k of
        Slice \<Rightarrow> Inl (KeyError ''Slices not allowed in SqliteDict'')
      | Obj key \<Rightarrow>
          (case map_of (dict_rows s) (coder s key) of
             Some row \<Rightarrow> Inr (decoder s row)
           | None \<Rightarrow> Inl (KeyError ''Mapping key not found in dict'')))"

text \<open>\<^verbatim>\<open>REPLACE INTO t (key, value) VALUES (k, v)\<close> and \<^verbatim>\<open>DELETE FROM t WHERE key = k\<close>.\<close>

definition sql_delete_key :: "dict_table \<Rightarrow> sqltext \<Rightarrow> dict_table" where
  "sql_delete_key t k = filter (\<lambda>r. fst r \<noteq> k) t"

definition sql_replace_key :: "dict_table \<Rightarrow> sqltext \<Rightarrow> sqltext \<Rightarrow> dict_table" where
  "sql_replace_key t k v = sql_delete_key t k @ [(k, v)]"

definition SqliteDict_setitem :: "'a SqliteDict \<Rightarrow> 'a pyobj \<Rightarrow> 'a \<Rightarrow> (error + unit) \<times> 'a SqliteDict" where
  "SqliteDict_setitem s k val =
     (case k of
        Slice \<Rightarrow> (Inl (KeyError ''Slices not allowed in SqliteDict''), s)
      | Obj key \<Rightarrow>
          (Inr (),
           do_write (s\<lparr>log := log s @ [Execute (REPLACE_INTO (table_name s))],
                       dict_rows := sql_replace_key (dict_rows s) (coder s key) (coder s val)\<rparr>)))"

text \<open>\<^verbatim>\<open>SqliteDict.__delitem__\<close>: the \<^verbatim>\<open>DELETE\<close> statement and \<^verbatim>\<open>_do_write\<close>; the method
  does not look whether a row was there.\<close>

definition SqliteDict_delitem :: "'a SqliteDict \<Rightarrow> 'a pyobj \<Rightarrow> (error + unit) \<times> 'a SqliteDict" where
  "SqliteDict_delitem s k =
     (case k of
        Slice \<Rightarrow> (Inl (KeyError ''Slices not allowed in SqliteDict''), s)
      | Obj key \<Rightarrow>
          (Inr (),
           do_write (s\<lparr>log := log s @ [Execute (DELETE_FROM (table_name s))],
                       dict_rows := sql_delete_key (dict_rows s) (coder s key)\<rparr>)))"

text \<open>\<^verbatim>\<open>SqliteDict.__contains__\<close>: \<^verbatim>\<open>self[key]\<close>, with \<^verbatim>\<open>KeyError\<close> caught.\<close>

definition SqliteDict_contains :: "'a SqliteDict \<Rightarrow> 'a pyobj \<Rightarrow> error + bool" where
  "SqliteDict_contains s k =
     (case SqliteDict_getitem s k of
        Inl (KeyError m) \<Rightarrow> Inr False
      | Inl e \<Rightarrow> Inl e
      | Inr val \<Rightarrow> Inr True)"

definition SqliteDict_clear :: "'a SqliteDict \<Rightarrow> (error + unit) \<times> 'a SqliteDict" where
  "SqliteDict_clear s =
     (Inr (), s\<lparr>log := log s @ [Execute (DELETE_FROM (table_name s))], dict_rows := []\<rparr>)"

text \<open>\<^verbatim>\<open>SqliteDict.pop\<close>: the parameter \<^verbatim>\<open>default\<close> is not used in the body.\<close>

definition SqliteDict_pop :: "'a SqliteDict \<Rightarrow> 'a pyobj \<Rightarrow> 'a option \<Rightarrow> (error + 'a) \<times> 'a SqliteDict" where
  "SqliteDict_pop s k dflt =
     (case SqliteDict_getitem s k of
        Inl e \<Rightarrow> (Inl e, s)
      | Inr val \<Rightarrow>
          (case SqliteDict_delitem s k of
             (Inl e, s') \<Rightarrow> (Inl e, s')
           | (Inr u, s') \<Rightarrow> (Inr val, s')))"

text \<open>\<^verbatim>\<open>SqliteDict.popitem\<close>: the first row of a scan; both branches leave the method
  before its own \<^verbatim>\<open>_do_write\<close> line, so the only call is the one in \<^verbatim>\<open>del self[key]\<close>.\<close>

definition SqliteDict_popitem :: "'a SqliteDict \<Rightarrow> (error + 'a \<times> 'a) \<times> 'a SqliteDict" where
  "SqliteDict_popitem s =
     (case dict_rows s of
        [] \<Rightarrow> (Inl (KeyError ''Dict has no more items to pop''), s)
      | row # rest \<Rightarrow>
          (let key = decoder s (fst row); val = decoder s (snd row) in
           case SqliteDict_delitem s (Obj key) of
             (Inl e, s') \<Rightarrow> (Inl e, s')
           | (Inr u, s') \<Rightarrow> (Inr (key, val), s')))"

section \<open>The set container \<^verbatim>\<open>SqliteSet\<close>\<close>

text \<open>
  The table \<^verbatim>\<open>(key TEXT PRIMARY KEY)\<close> is the list of its rows in the order a scan
  returns them; every statement addresses the table \<open>table_name\<close>, which is \<open>set_rows\<close>.
  The methods with a cursor argument (\<^verbatim>\<open>_has\<close>, \<^verbatim>\<open>_discard\<close>, \<^verbatim>\<open>_add\<close>, \<^verbatim>\<open>_remove\<close>) carry
  the prefix \<open>cursor\<close> here.
\<close>

record 'a SqliteSet = "'a SqliteObject" +
  set_rows :: "sqltext list"

definition SqliteSet_len :: "'a SqliteSet \<Rightarrow> int" where
  "SqliteSet_len s = sql_count (set_rows s)"

definition cursor_has :: "'a SqliteSet \<Rightarrow> 'a \<Rightarrow> bool" where
  "cursor_has s x = (coder s x \<in> set (set_rows s))"

definition cursor_discard :: "'a SqliteSet \<Rightarrow> 'a \<Rightarrow> 'a SqliteSet" where
  "cursor_discard s x =
     s\<lparr>log := log s @ [Execute (DELETE_FROM (table_name s))],
       set_rows := filter (\<lambda>k. k \<noteq> coder s x) (set_rows s)\<rparr>"

definition cursor_add :: "'a SqliteSet \<Rightarrow> 'a \<Rightarrow> 'a SqliteSet" where
  "cursor_add s x =
     s\<lparr>log := log s @ [Execute (INSERT_OR_IGNORE_INTO (table_name s))],
       set_rows := (if coder s x \<in> set (set_rows s) then set_rows s
                    else set_rows s @ [coder s x])\<rparr>"

text \<open>\<^verbatim>\<open>_remove\<close>: the message of its \<^verbatim>\<open>KeyError\<close> is built by \<^verbatim>\<open>str.format\<close> with a
  positional argument for the named field \<^verbatim>\<open>table_name\<close>, which raises
  \<^verbatim>\<open>KeyError('table_name')\<close> itself.\<close>

definition cursor_remove :: "'a SqliteSet \<Rightarrow> 'a \<Rightarrow> (error + unit) \<times> 'a SqliteSet" where
  "cursor_remove s x =
     (if cursor_has s x then (Inr (), cursor_discard s x)
      else (Inl (KeyError ''table_name''), s))"

definition SqliteSet_contains :: "'a SqliteSet \<Rightarrow> 'a \<Rightarrow> bool" where
  "SqliteSet_contains s x = cursor_has s x"

definition SqliteSet_add :: "'a SqliteSet \<Rightarrow> 'a \<Rightarrow> (error + unit) \<times> 'a SqliteSet" where
  "SqliteSet_add s x = (Inr (), do_write (cursor_add s x))"

definition SqliteSet_remove :: "'a SqliteSet \<Rightarrow> 'a \<Rightarrow> (error + unit) \<times> 'a SqliteSet" where
  "SqliteSet_remove s x =
     (case cursor_remove s x of
        (Inl e, s') \<Rightarrow> (Inl e, s')
      | (Inr u, s') \<Rightarrow> (Inr (), do_write s'))"

definition SqliteSet_discard :: "'a SqliteSet \<Rightarrow> 'a \<Rightarrow> (error + unit) \<times> 'a SqliteSet" where
  "SqliteSet_discard s x = (Inr (), do_write (cursor_discard s x))"

text \<open>\<^verbatim>\<open>SqliteSet.pop\<close>: the first row of a scan is decoded, and the decoded value is
  passed to \<^verbatim>\<open>_discard\<close>, which encodes it again.\<close>

definition SqliteSet_pop :: "'a SqliteSet \<Rightarrow> (error + 'a) \<times> 'a SqliteSet" where
  "SqliteSet_pop s =
     (case set_rows s of
        [] \<Rightarrow> (Inl (KeyError ''Tried to pop empty set_table''), s)
      | row # rest \<Rightarrow> (Inr (decoder s row), do_write (cursor_discard s (decoder s row))))"

definition SqliteSet_clear :: "'a SqliteSet \<Rightarrow> (error + unit) \<times> 'a SqliteSet" where
  "SqliteSet_clear s =
     (Inr (), s\<lparr>log := log s @ [Execute (DELETE_FROM (table_name s))], set_rows := []\<rparr>)"

section \<open>Well-formed tables and example containers\<close>

text \<open>
  What the engine and the methods guarantee of the table of a \<^verbatim>\<open>SqliteList\<close>: the indices
  are distinct (the primary key) and 64-bit, and they are contiguous, which is what the
  index arithmetic \<^verbatim>\<open>MIN(list_index) + ?\<close> of \<^verbatim>\<open>__getitem__\<close> relies on. A new container has
  such a table (lemma \<open>list_inv_init\<close>) and every method keeps it so (lemmas
  \<open>SqliteList_append_ok\<close>, \<open>SqliteList_prepend_ok\<close>, \<open>SqliteList_pop_first_ok\<close>,
  \<open>SqliteList_pop_last_ok\<close>, \<open>SqliteList_setitem_default\<close>, \<open>list_inv_clear\<close>).
\<close>

definition list_inv :: "list_table \<Rightarrow> bool" where
  "list_inv t =
     (distinct (map fst t) \<and>
      list_all (\<lambda>r. i64_min \<le> fst r \<and> fst r \<le> i64_max) t \<and>
      (t = [] \<or> Max (set (map fst t)) - Min (set (map fst t)) + 1 = int (length t)))"

text \<open>A coder and decoder for the integers from 0 to 255 (one character each), and the
  containers built with them that the examples below use, on connections with the
  default isolation level of \<^verbatim>\<open>sqlite3.connect\<close> (the empty string).\<close>

definition example_coder :: "int \<Rightarrow> sqltext" where
  "example_coder n = [char_of n]"

definition example_decoder :: "sqltext \<Rightarrow> int" where
  "example_decoder t = (case t of [] \<Rightarrow> 0 | c # cs \<Rightarrow> of_char c)"

definition example_list :: "int SqliteList" where
  "example_list =
     snd (SqliteList_init [10, 20, 30, 40, 50] Map.empty example_coder example_decoder 0 None
            (Some []))"

definition example_empty :: "int SqliteList" where
  "example_empty = snd (SqliteList_init [] Map.empty example_coder example_decoder 0 None (Some []))"

text \<open>A container with the name \<^verbatim>\<open>a\<close> in a new database file, and one with that name in
  a file that holds the table \<^verbatim>\<open>list\<close> of an unnamed \<^verbatim>\<open>SqliteList\<close> already.\<close>

definition example_named :: "int SqliteList" where
  "example_named =
     snd (SqliteList_init [10, 20] Map.empty example_coder example_decoder 0 (Some ''a'')
            (Some []))"

definition example_shared :: "int SqliteList" where
  "example_shared =
     snd (SqliteList_init [10, 20]
            [''list'' \<mapsto> [(1, example_coder 1), (2, example_coder 2)]]
            example_coder example_decoder 0 (Some ''a'') (Some []))"

definition example_dict :: "int SqliteDict" where
  "example_dict =
     \<lparr>coder = example_coder, decoder = example_decoder, commit_every = 0, write_count = 0,
      table_name = ''dict'', isolation_level = Some [], log = [],
      dict_rows = [(example_coder 1, example_coder 11), (example_coder 2, example_coder 22)]\<rparr>"

definition example_set :: "int SqliteSet" where
  "example_set =
     \<lparr>coder = example_coder, decoder = example_decoder, commit_every = 0, write_count = 0,
      table_name = ''set_table'', isolation_level = Some [], log = [],
      set_rows = [example_coder 3, example_coder 4]\<rparr>"

text \<open>The number of calls of \<^verbatim>\<open>_do_write\<close> in a record of engine calls.\<close>

definition do_write_calls :: "event list \<Rightarrow> nat" where
  "do_write_calls l = count_list l Do_write"

section \<open>Basic facts\<close>

subsection \<open>The commit hook leaves the container's contents alone\<close>

lemma do_write_simps [simp]:
  "coder (do_write s) = coder s"
  "decoder (do_write s) = decoder s"
  "commit_every (do_write s) = commit_every s"
  "table_name (do_write s) = table_name s"
  "isolation_level (do_write s) = isolation_level s"
  "SqliteObject.more (do_write s) = SqliteObject.more s"
  by (simp_all add: do_write_def Let_def)

lemma do_write_list [simp]:
  "list_rows (do_write s) = list_rows s"
  "list_others (do_write s) = list_others s"
  by (simp_all add: do_write_def Let_def)

lemma do_write_dict [simp]: "dict_rows (do_write s) = dict_rows s"
  by (simp add: do_write_def Let_def)

lemma do_write_set [simp]: "set_rows (do_write s) = set_rows s"
  by (simp add: do_write_def Let_def)

lemma do_write_log:
  "log (do_write s) =
     log s @ (if commit_every s \<le> write_count s + 1 then [Do_write, Db_commit] else [Do_write])"
  by (simp add: do_write_def Let_def)

lemma do_write_calls_append [simp]:
  "do_write_calls (xs @ ys) = do_write_calls xs + do_write_calls ys"
  by (simp add: do_write_calls_def)

lemma do_write_calls_Cons [simp]:
  "do_write_calls (e # xs) = (if e = Do_write then 1 else 0) + do_write_calls xs"
  "do_write_calls [] = 0"
  by (simp_all add: do_write_calls_def)

lemma do_write_calls_do_write [simp]:
  "do_write_calls (log (do_write s)) = do_write_calls (log s) + 1"
  by (simp add: do_write_log)

subsection \<open>The open transaction\<close>

lemma in_transaction_log [simp]:
  "in_transaction (s\<lparr>log := l\<rparr>) = foldl (tx_step (isolation_level s)) False l"
  by (simp add: in_transaction_def)

lemma in_transaction_snoc:
  "foldl (tx_step lvl) False (l @ [e]) = tx_step lvl (foldl (tx_step lvl) False l) e"
  by simp

lemma in_transaction_list [simp]:
  "in_transaction (s\<lparr>list_rows := t\<rparr>) = in_transaction s"
  "in_transaction (s\<lparr>list_others := f\<rparr>) = in_transaction s"
  by (simp_all add: in_transaction_def)

lemma in_transaction_do_write:
  "in_transaction (do_write s) = (\<not> commit_every s \<le> write_count s + 1 \<and> in_transaction s)"
  by (simp add: in_transaction_def do_write_def Let_def)

lemma in_transaction_begin:
  "in_transaction (s\<lparr>log := log s @ [Execute BEGIN_TRANSACTION]\<rparr>)"
  by simp

subsection \<open>The example container\<close>

lemma example_list_rows:
  "list_rows example_list =
     [(1, example_coder 10), (2, example_coder 20), (3, example_coder 30),
      (4, example_coder 40), (5, example_coder 50)]"
  by (simp add: example_list_def SqliteList_init_def SqliteList_table_name_def
      SqliteList_append_def sql_insert_def sql_max_def auto_rowid_def i64_max_def i64_min_def)

lemma example_list_fields:
  "coder example_list = example_coder"
  "decoder example_list = example_decoder"
  "table_name example_list = ''list''"
  "list_others example_list = Map.empty"
  by (simp_all add: example_list_def SqliteList_init_def SqliteList_table_name_def
      SqliteList_append_def sql_insert_def sql_max_def auto_rowid_def i64_max_def i64_min_def)

lemma example_list_tx: "\<not> in_transaction example_list"
  by (simp add: example_list_def SqliteList_init_def SqliteList_table_name_def
      SqliteList_append_def sql_insert_def sql_max_def auto_rowid_def i64_max_def i64_min_def
      in_transaction_def do_write_def Let_def)

lemmas example_list_eval =
  example_list_rows example_list_fields getlen_def SqliteList_len_def sql_count_def
  sql_min_def sql_max_def sql_select_value_def example_decoder_def example_coder_def

lemma example_list_inv: "list_inv (list_rows example_list)"
  by (simp add: example_list_rows list_inv_def i64_min_def i64_max_def)

lemma example_list_iter: "SqliteList_iter example_list = [10, 20, 30, 40, 50]"
  by (simp add: SqliteList_iter_def example_list_eval)

subsection \<open>Deleting the rows of a key\<close>

lemma int_length_pred: "xs \<noteq> [] \<Longrightarrow> int (length xs - 1) = int (length xs) - 1"
  by (cases xs) simp_all

lemma map_of_delete_key:
  "map_of (filter (\<lambda>r. fst r \<noteq> a) t) b = (if b = a then None else map_of t b)"
  by (induction t) auto

lemma length_delete_key:
  "distinct (map fst t) \<Longrightarrow> a \<in> fst ` set t \<Longrightarrow>
     length (filter (\<lambda>r. fst r \<noteq> a) t) = length t - 1"
proof (induction t)
  case Nil
  then show ?case by simp
next
  case (Cons r t)
  show ?case
  proof (cases "fst r = a")
    case True
    with Cons.prems have "a \<notin> fst ` set t" by auto
    then have "filter (\<lambda>r. fst r \<noteq> a) t = t" by (auto simp add: filter_id_conv)
    with True show ?thesis by simp
  next
    case False
    with Cons.prems have "a \<in> fst ` set t" and "distinct (map fst t)" by auto
    with Cons.IH have "length (filter (\<lambda>r. fst r \<noteq> a) t) = length t - 1" by blast
    moreover from \<open>a \<in> fst ` set t\<close> have "t \<noteq> []" by auto
    ultimately show ?thesis using False by (cases t) simp_all
  qed
qed

section \<open>Properties of the sequence container\<close>

subsection \<open>Contiguous indices\<close>

lemma keys_interval:
  fixes K :: "int set"
  assumes fin: "finite K" and c: "Max K - Min K + 1 = int (card K)"
  shows "K = {Min K .. Max K}"
proof -
  have sub: "K \<subseteq> {Min K .. Max K}"
  proof
    fix k assume k: "k \<in> K"
    have "Min K \<le> k" using fin k by (rule Min_le)
    moreover have "k \<le> Max K" using fin k by (rule Max_ge)
    ultimately show "k \<in> {Min K .. Max K}" by simp
  qed
  have "card {Min K .. Max K} = nat (Max K - Min K + 1)" by simp
  with c have "card {Min K .. Max K} = card K" by simp
  with sub show ?thesis by (simp add: card_subset_eq)
qed

lemma list_inv_distinct: "list_inv t \<Longrightarrow> distinct (map fst t)"
  by (simp add: list_inv_def)

lemma list_inv_span:
  "list_inv t \<Longrightarrow> t \<noteq> [] \<Longrightarrow> Max (set (map fst t)) - Min (set (map fst t)) + 1 = int (length t)"
  unfolding list_inv_def by blast

lemma list_inv_keys:
  assumes "list_inv t" "t \<noteq> []"
  shows "set (map fst t) = {Min (set (map fst t)) .. Max (set (map fst t))}"
proof (rule keys_interval)
  show "finite (set (map fst t))" by (rule finite_set)
  have "card (set (map fst t)) = length (map fst t)"
    using list_inv_distinct [OF assms(1)] by (rule distinct_card)
  then show "Max (set (map fst t)) - Min (set (map fst t)) + 1 = int (card (set (map fst t)))"
    using list_inv_span [OF assms] by (simp only: length_map)
qed

lemma list_inv_mem:
  assumes "list_inv t" "t \<noteq> []"
  shows "(k \<in> set (map fst t)) = (Min (set (map fst t)) \<le> k \<and> k \<le> Max (set (map fst t)))"
proof -
  have "(k \<in> set (map fst t)) = (k \<in> {Min (set (map fst t)) .. Max (set (map fst t))})"
    using list_inv_keys [OF assms] by (rule arg_cong [where f = "\<lambda>S. k \<in> S"])
  then show ?thesis by (simp only: atLeastAtMost_iff)
qed

lemma list_inv_sorted_keys:
  assumes "list_inv t" "t \<noteq> []"
  shows "map fst (sort_key fst t) = [Min (set (map fst t)) .. Max (set (map fst t))]"
proof (rule sorted_distinct_set_unique)
  show "sorted (map fst (sort_key fst t))" by (rule sorted_sort_key)
  show "distinct (map fst (sort_key fst t))"
    using list_inv_distinct [OF assms(1)] by (simp add: distinct_map)
  show "sorted [Min (set (map fst t)) .. Max (set (map fst t))]" by (rule sorted_upto)
  show "distinct [Min (set (map fst t)) .. Max (set (map fst t))]" by (rule distinct_upto)
  have "set (map fst (sort_key fst t)) = set (map fst t)" by simp
  also have "\<dots> = {Min (set (map fst t)) .. Max (set (map fst t))}" by (rule list_inv_keys [OF assms])
  finally show "set (map fst (sort_key fst t)) = set [Min (set (map fst t)) .. Max (set (map fst t))]"
    by (simp only: set_upto)
qed

lemma list_inv_sort_key:
  assumes "list_inv t" "t \<noteq> []"
  shows "sort_key fst t = map (\<lambda>k. (k, the (map_of t k))) [Min (set (map fst t)) .. Max (set (map fst t))]"
proof -
  have d: "distinct (map fst t)" by (rule list_inv_distinct [OF assms(1)])
  have "sort_key fst t = map (\<lambda>r. (fst r, the (map_of t (fst r)))) (sort_key fst t)"
  proof (rule map_idI [symmetric])
    fix r assume "r \<in> set (sort_key fst t)"
    then have "(fst r, snd r) \<in> set t" by simp
    with d have "map_of t (fst r) = Some (snd r)" by (simp only: map_of_eq_Some_iff)
    then show "(fst r, the (map_of t (fst r))) = r" by simp
  qed
  also have "\<dots> = map (\<lambda>k. (k, the (map_of t k))) (map fst (sort_key fst t))" by (simp add: comp_def)
  finally show ?thesis by (simp only: list_inv_sorted_keys [OF assms])
qed

text \<open>The row at the logical index \<open>i\<close> is the \<open>i\<close>-th row in the order of the indices.\<close>

lemma list_inv_lookup:
  assumes inv: "list_inv t" and i: "0 \<le> i" "i < int (length t)"
  shows "sql_select_value t (map_option (\<lambda>m. m + i) (sql_min t)) = Some (snd (sort_key fst t ! nat i))"
proof -
  let ?m = "Min (set (map fst t))" and ?M = "Max (set (map fst t))"
  from i have ne: "t \<noteq> []" by auto
  have span: "?M - ?m + 1 = int (length t)" by (rule list_inv_span [OF inv ne])
  with i have le: "?m + i \<le> ?M" by simp
  then have "?m \<le> ?m + i \<and> ?m + i \<le> ?M" using i by simp
  then have "?m + i \<in> set (map fst t)" by (simp only: list_inv_mem [OF inv ne])
  then obtain v where v: "(?m + i, v) \<in> set t" by auto
  with list_inv_distinct [OF inv] have look: "map_of t (?m + i) = Some v" by (simp only: map_of_eq_Some_iff)
  have "[?m .. ?M] ! nat i = ?m + int (nat i)" using le i by (intro nth_upto) simp
  then have nth: "[?m .. ?M] ! nat i = ?m + i" using i by simp
  have len: "nat i < length [?m .. ?M]" using le i by simp
  have "sort_key fst t ! nat i = (?m + i, the (map_of t (?m + i)))"
    unfolding list_inv_sort_key [OF inv ne] using len nth by (simp only: nth_map)
  with look have "snd (sort_key fst t ! nat i) = v" by simp
  with look ne show ?thesis by (simp add: sql_select_value_def sql_min_def)
qed

lemma SqliteList_getitem_iter:
  assumes "list_inv (list_rows s)" "0 \<le> i" "i < SqliteList_len s"
  shows "SqliteList_getitem s (IntKey i) = Inr (Value (SqliteList_iter s ! nat i))"
proof -
  from assms have i: "i < int (length (list_rows s))"
    by (simp add: SqliteList_len_def getlen_def sql_count_def)
  then have "nat i < length (sort_key fst (list_rows s))" using assms(2) by simp
  then have "SqliteList_iter s ! nat i = decoder s (snd (sort_key fst (list_rows s) ! nat i))"
    unfolding SqliteList_iter_def by (rule nth_map)
  with list_inv_lookup [OF assms(1,2) i] assms(2) i show ?thesis
    by (simp add: getlen_def sql_count_def)
qed

lemma sql_max_snoc:
  "sql_max (t @ [(k, v)]) = Some (case sql_max t of None \<Rightarrow> k | Some m \<Rightarrow> max k m)"
  by (simp add: sql_max_def)

lemma sql_min_snoc:
  "sql_min (t @ [(k, v)]) = Some (case sql_min t of None \<Rightarrow> k | Some m \<Rightarrow> min k m)"
  by (simp add: sql_min_def)

lemma sql_max_ge: "sql_max t = Some m \<Longrightarrow> k \<in> fst ` set t \<Longrightarrow> k \<le> m"
proof -
  assume a: "sql_max t = Some m" and k: "k \<in> fst ` set t"
  from a have m: "m = Max (fst ` set t)" by (auto simp add: sql_max_def split: if_splits)
  have "k \<le> Max (fst ` set t)" using k by (intro Max_ge) simp_all
  with m show ?thesis by simp
qed

lemma sql_min_le: "sql_min t = Some m \<Longrightarrow> k \<in> fst ` set t \<Longrightarrow> m \<le> k"
proof -
  assume a: "sql_min t = Some m" and k: "k \<in> fst ` set t"
  from a have m: "m = Min (fst ` set t)" by (auto simp add: sql_min_def split: if_splits)
  have "Min (fst ` set t) \<le> k" using k by (intro Min_le) simp_all
  with m show ?thesis by simp
qed

lemma sql_max_mem: "sql_max t = Some m \<Longrightarrow> m \<in> fst ` set t"
proof -
  assume a: "sql_max t = Some m"
  then have ne: "t \<noteq> []" and m: "m = Max (fst ` set t)"
    by (auto simp add: sql_max_def split: if_splits)
  have "Max (fst ` set t) \<in> fst ` set t" using ne by (intro Max_in) simp_all
  with m show ?thesis by simp
qed

lemma sql_min_mem: "sql_min t = Some m \<Longrightarrow> m \<in> fst ` set t"
proof -
  assume a: "sql_min t = Some m"
  then have ne: "t \<noteq> []" and m: "m = Min (fst ` set t)"
    by (auto simp add: sql_min_def split: if_splits)
  have "Min (fst ` set t) \<in> fst ` set t" using ne by (intro Min_in) simp_all
  with m show ?thesis by simp
qed

lemma sql_min_max_None: "(sql_min t = None) = (t = [])" "(sql_max t = None) = (t = [])"
  by (simp_all add: sql_min_def sql_max_def)

lemma list_inv_Some:
  assumes "list_inv t" "sql_min t = Some m" "sql_max t = Some M"
  shows "M - m + 1 = int (length t)"
    and "(k \<in> fst ` set t) = (m \<le> k \<and> k \<le> M)"
    and "i64_min \<le> m" and "M \<le> i64_max" and "m \<le> M"
proof -
  from assms(2) have ne: "t \<noteq> []" and m: "m = Min (set (map fst t))"
    by (auto simp add: sql_min_def split: if_splits)
  from assms(3) have M: "M = Max (set (map fst t))"
    by (auto simp add: sql_max_def split: if_splits)
  show "M - m + 1 = int (length t)" unfolding m M by (rule list_inv_span [OF assms(1) ne])
  have "(k \<in> set (map fst t)) = (m \<le> k \<and> k \<le> M)"
    unfolding m M by (rule list_inv_mem [OF assms(1) ne])
  then show mem: "(k \<in> fst ` set t) = (m \<le> k \<and> k \<le> M)" by simp
  have b: "\<forall>r \<in> set t. i64_min \<le> fst r \<and> fst r \<le> i64_max"
    using assms(1) by (simp add: list_inv_def list_all_iff)
  from sql_min_mem [OF assms(2)] b show "i64_min \<le> m" by auto
  from sql_max_mem [OF assms(3)] b show "M \<le> i64_max" by auto
  from sql_min_le [OF assms(2) sql_max_mem [OF assms(3)]] show "m \<le> M" .
qed

lemma list_invI:
  assumes "distinct (map fst t)"
    and "\<forall>r \<in> set t. i64_min \<le> fst r \<and> fst r \<le> i64_max"
    and "\<And>m M. sql_min t = Some m \<Longrightarrow> sql_max t = Some M \<Longrightarrow> M - m + 1 = int (length t)"
  shows "list_inv t"
proof (cases "t = []")
  case True
  then show ?thesis by (simp add: list_inv_def)
next
  case False
  then have "sql_min t = Some (Min (set (map fst t)))" "sql_max t = Some (Max (set (map fst t)))"
    by (simp_all add: sql_min_def sql_max_def)
  then have "Max (set (map fst t)) - Min (set (map fst t)) + 1 = int (length t)" by (rule assms(3))
  with assms(1,2) show ?thesis unfolding list_inv_def list_all_iff by blast
qed

subsection \<open>Indexing\<close>


text \<open>
  C6. For every sequence container and every \<open>i\<close> with \<open>0 \<le> i < length\<close>, \<open>get (-1 - i)\<close>
  is \<open>get (length - 1 - i)\<close>, and in a well-formed table that is the element at the
  position \<open>length - 1 - i\<close> of the contents. For a negative \<open>j\<close>, \<open>get j\<close> is the lookup at
  the resolved index \<open>length + j\<close>, and it fails with \<^verbatim>\<open>IndexError\<close> when the resolved index
  is still negative or is at least the length.
\<close>

theorem SqliteList_getitem_negative:
  "(0 \<le> i \<and> i < SqliteList_len s \<longrightarrow>
      SqliteList_getitem s (IntKey (- 1 - i)) = SqliteList_getitem s (IntKey (SqliteList_len s - 1 - i)))
   \<and> (list_inv (list_rows s) \<and> 0 \<le> i \<and> i < SqliteList_len s \<longrightarrow>
      SqliteList_getitem s (IntKey (- 1 - i))
        = Inr (Value (SqliteList_iter s ! nat (SqliteList_len s - 1 - i))))
   \<and> (j < 0 \<and> 0 \<le> SqliteList_len s + j \<longrightarrow>
      SqliteList_getitem s (IntKey j) = SqliteList_getitem s (IntKey (SqliteList_len s + j)))
   \<and> (j < 0 \<and> (SqliteList_len s + j < 0 \<or> SqliteList_len s \<le> SqliteList_len s + j) \<longrightarrow>
      SqliteList_getitem s (IntKey j) = Inl (IndexError ''Sequence index out of range.''))"
proof -
  have resolve: "SqliteList_getitem s (IntKey k) = SqliteList_getitem s (IntKey (getlen s + k))"
    if "k < 0" "0 \<le> getlen s + k" for k
    using that by (simp add: Let_def)
  have mirror: "SqliteList_getitem s (IntKey (- 1 - i)) = SqliteList_getitem s (IntKey (getlen s - 1 - i))"
    if "0 \<le> i" "i < getlen s"
  proof -
    have e: "getlen s + (- 1 - i) = getlen s - 1 - i" by simp
    have "- 1 - i < 0" and "0 \<le> getlen s + (- 1 - i)" using that by simp_all
    then show ?thesis using resolve [of "- 1 - i"] unfolding e by blast
  qed
  have "SqliteList_getitem s (IntKey (- 1 - i))
        = Inr (Value (SqliteList_iter s ! nat (getlen s - 1 - i)))"
    if inv: "list_inv (list_rows s)" and i: "0 \<le> i" "i < getlen s"
  proof -
    have "0 \<le> getlen s - 1 - i" and "getlen s - 1 - i < SqliteList_len s"
      using i by (simp_all add: SqliteList_len_def)
    with inv have "SqliteList_getitem s (IntKey (getlen s - 1 - i))
        = Inr (Value (SqliteList_iter s ! nat (getlen s - 1 - i)))"
      by (rule SqliteList_getitem_iter)
    with mirror [OF i] show ?thesis by (simp only:)
  qed
  moreover have "SqliteList_getitem s (IntKey j) = Inl (IndexError ''Sequence index out of range.'')"
    if "j < 0" "getlen s + j < 0 \<or> getlen s \<le> getlen s + j"
    using that by (simp add: Let_def)
  ultimately show ?thesis
    using resolve [of j] mirror unfolding SqliteList_len_def by blast
qed

theorem SqliteList_getitem_negative_witness:
  "SqliteList_len example_list = 5
   \<and> list_inv (list_rows example_list)
   \<and> SqliteList_getitem example_list (IntKey (- 1 - 1)) = Inr (Value 40)
   \<and> SqliteList_getitem example_list (IntKey (5 - 1 - 1)) = Inr (Value 40)
   \<and> SqliteList_iter example_list ! nat (5 - 1 - 1) = 40
   \<and> SqliteList_getitem example_list (IntKey (- 5)) = Inr (Value 10)
   \<and> SqliteList_getitem example_list (IntKey (- 6)) = Inl (IndexError ''Sequence index out of range.'')"
  using SqliteList_getitem_negative [of 1 example_list "- 6"]
    SqliteList_getitem_negative [of 1 example_list "- 5"]
  by (simp add: example_list_eval example_list_iter list_inv_def i64_min_def i64_max_def)

subsection \<open>Appending and prepending\<close>

lemma auto_rowid_fresh: "auto_rowid t \<notin> fst ` set t"
proof (cases "sql_max t")
  case None
  then show ?thesis by (simp add: sql_min_max_None)
next
  case (Some M)
  show ?thesis
  proof
    assume "auto_rowid t \<in> fst ` set t"
    then have "auto_rowid t \<le> M" by (rule sql_max_ge [OF Some])
    with Some show False by (simp add: auto_rowid_def)
  qed
qed

lemma sql_insert_max:
  "sql_insert t (map_option (\<lambda>m. m + 1) (sql_max t)) v =
     (if auto_rowid t < i64_min \<or> i64_max < auto_rowid t
      then Inl (IntegrityError ''datatype mismatch'')
      else Inr (t @ [(auto_rowid t, v)]))"
proof (cases "sql_max t")
  case None
  then show ?thesis by (simp add: sql_insert_def auto_rowid_def i64_min_def i64_max_def)
next
  case (Some M)
  with auto_rowid_fresh [of t] have "M + 1 \<notin> fst ` set t" by (simp add: auto_rowid_def)
  with Some show ?thesis by (simp add: sql_insert_def auto_rowid_def)
qed

lemma sql_insert_min:
  "sql_insert t (map_option (\<lambda>m. m - 1) (sql_min t)) v =
     (case sql_min t of
        None \<Rightarrow> Inr (t @ [(1, v)])
      | Some m \<Rightarrow>
          if m - 1 < i64_min \<or> i64_max < m - 1 then Inl (IntegrityError ''datatype mismatch'')
          else Inr (t @ [(m - 1, v)]))"
proof (cases "sql_min t")
  case None
  then have "t = []" by (simp add: sql_min_max_None)
  then show ?thesis by (simp add: sql_insert_def auto_rowid_def sql_min_def sql_max_def)
next
  case (Some m)
  have "m - 1 \<notin> fst ` set t"
  proof
    assume "m - 1 \<in> fst ` set t"
    then have "m \<le> m - 1" by (rule sql_min_le [OF Some])
    then show False by simp
  qed
  with Some show ?thesis by (simp add: sql_insert_def)
qed

lemma list_inv_snoc_max:
  assumes "list_inv t" "auto_rowid t \<le> i64_max"
  shows "list_inv (t @ [(auto_rowid t, v)])"
proof (cases "sql_max t")
  case None
  then have "t = []" by (simp add: sql_min_max_None)
  then show ?thesis by (simp add: list_inv_def auto_rowid_def sql_max_def i64_min_def i64_max_def)
next
  case (Some M)
  then have "t \<noteq> []" by (auto simp add: sql_max_def)
  then obtain m where m: "sql_min t = Some m" by (auto simp add: sql_min_def)
  note inv = list_inv_Some [OF assms(1) m Some]
  have a: "auto_rowid t = M + 1" using Some by (simp add: auto_rowid_def)
  show ?thesis
  proof (rule list_invI)
    show "distinct (map fst (t @ [(auto_rowid t, v)]))"
      using list_inv_distinct [OF assms(1)] auto_rowid_fresh [of t] by simp
    show "\<forall>r\<in>set (t @ [(auto_rowid t, v)]). i64_min \<le> fst r \<and> fst r \<le> i64_max"
      using assms inv(3,5) a by (auto simp add: list_inv_def list_all_iff)
    fix m' M'
    assume "sql_min (t @ [(auto_rowid t, v)]) = Some m'" "sql_max (t @ [(auto_rowid t, v)]) = Some M'"
    then have "m' = m" "M' = M + 1" using m Some a inv(5) by (simp_all add: sql_min_snoc sql_max_snoc)
    with inv(1) show "M' - m' + 1 = int (length (t @ [(auto_rowid t, v)]))" by simp
  qed
qed

lemma list_inv_snoc_min:
  assumes "list_inv t" "sql_min t = Some m" "i64_min \<le> m - 1"
  shows "list_inv (t @ [(m - 1, v)])"
proof -
  from assms(2) have "t \<noteq> []" by (auto simp add: sql_min_def)
  then obtain M where M: "sql_max t = Some M" by (auto simp add: sql_max_def)
  note inv = list_inv_Some [OF assms(1,2) M]
  have fresh: "m - 1 \<notin> fst ` set t" by (simp add: inv(2))
  show ?thesis
  proof (rule list_invI)
    show "distinct (map fst (t @ [(m - 1, v)]))"
      using list_inv_distinct [OF assms(1)] fresh by simp
    show "\<forall>r\<in>set (t @ [(m - 1, v)]). i64_min \<le> fst r \<and> fst r \<le> i64_max"
      using assms inv(4,5) by (auto simp add: list_inv_def list_all_iff)
    fix m' M'
    assume "sql_min (t @ [(m - 1, v)]) = Some m'" "sql_max (t @ [(m - 1, v)]) = Some M'"
    then have "m' = m - 1" "M' = M" using assms(2) M inv(5) by (simp_all add: sql_min_snoc sql_max_snoc)
    with inv(1) show "M' - m' + 1 = int (length (t @ [(m - 1, v)]))" by simp
  qed
qed

lemma lookup_snoc_fresh: "k \<notin> fst ` set t \<Longrightarrow> map_of (t @ [(k, v)]) k = Some v"
  by (simp add: map_add_def map_of_eq_None_iff [THEN iffD2])

lemma SqliteList_getitem_at:
  assumes "0 \<le> i" "i < int (length (list_rows s))" "sql_min (list_rows s) = Some m"
    and "map_of (list_rows s) (m + i) = Some t"
  shows "SqliteList_getitem s (IntKey i) = Inr (Value (decoder s t))"
  using assms by (simp add: getlen_def sql_count_def sql_select_value_def)

subsection \<open>Deleting at an end\<close>

lemma keys_delete: "fst ` set (filter (\<lambda>r. fst r \<noteq> a) t) = fst ` set t - {a}"
  by auto

lemma list_inv_delete_end:
  assumes inv: "list_inv t" and m: "sql_min t = Some m" and M: "sql_max t = Some M"
    and a: "a = m \<or> a = M"
  shows "list_inv (filter (\<lambda>r. fst r \<noteq> a) t)"
proof (rule list_invI)
  let ?t' = "filter (\<lambda>r. fst r \<noteq> a) t"
  note I = list_inv_Some [OF inv m M]
  show "distinct (map fst ?t')" using list_inv_distinct [OF inv] by (rule distinct_map_filter)
  show "\<forall>r\<in>set ?t'. i64_min \<le> fst r \<and> fst r \<le> i64_max"
    using inv by (simp add: list_inv_def list_all_iff)
  have mem: "(k \<in> fst ` set ?t') = (m \<le> k \<and> k \<le> M \<and> k \<noteq> a)" for k
    unfolding keys_delete using I(2) [of k] by auto
  have a_in: "a \<in> fst ` set t" using a I(2) [of a] I(5) by auto
  have len: "int (length ?t') = int (length t) - 1"
  proof -
    from a_in have "t \<noteq> []" by auto
    then have "int (length t - 1) = int (length t) - 1" by (rule int_length_pred)
    with length_delete_key [OF list_inv_distinct [OF inv] a_in] show ?thesis by simp
  qed
  fix m' M'
  assume m': "sql_min ?t' = Some m'" and M': "sql_max ?t' = Some M'"
  have lo: "m \<le> m' \<and> m' \<le> M \<and> m' \<noteq> a" using sql_min_mem [OF m'] mem [of m'] by blast
  have hi: "m \<le> M' \<and> M' \<le> M \<and> M' \<noteq> a" using sql_max_mem [OF M'] mem [of M'] by blast
  from a show "M' - m' + 1 = int (length ?t')"
  proof
    assume am: "a = m"
    have "m + 1 \<in> fst ` set ?t'" using lo am mem [of "m + 1"] by auto
    then have "m' \<le> m + 1" by (rule sql_min_le [OF m'])
    moreover have "M \<in> fst ` set ?t'" using lo am mem [of M] by auto
    then have "M \<le> M'" by (rule sql_max_ge [OF M'])
    ultimately have "m' = m + 1" "M' = M" using lo hi am by simp_all
    with I(1) len show ?thesis by simp
  next
    assume aM: "a = M"
    have "M - 1 \<in> fst ` set ?t'" using hi aM mem [of "M - 1"] by auto
    then have "M - 1 \<le> M'" by (rule sql_max_ge [OF M'])
    moreover have "m \<in> fst ` set ?t'" using hi aM mem [of m] by auto
    then have "m' \<le> m" by (rule sql_min_le [OF m'])
    ultimately have "m' = m" "M' = M - 1" using lo hi aM by simp_all
    with I(1) len show ?thesis by simp
  qed
qed

lemma sql_delete_index_Some: "sql_delete_index t (Some a) = filter (\<lambda>r. fst r \<noteq> a) t"
  by (simp add: sql_delete_index_def)

subsection \<open>The methods in terms of the table\<close>

lemma SqliteList_append_eq:
  "SqliteList_append s x =
     (if auto_rowid (list_rows s) < i64_min \<or> i64_max < auto_rowid (list_rows s)
      then (Inl (IntegrityError ''datatype mismatch''),
            s\<lparr>log := log s @ [Failed (INSERT_INTO (table_name s))]\<rparr>)
      else (Inr (),
            do_write (s\<lparr>log := log s @ [Execute (INSERT_INTO (table_name s))],
                        list_rows := list_rows s @ [(auto_rowid (list_rows s), coder s x)]\<rparr>)))"
  by (simp add: SqliteList_append_def sql_insert_max)

lemma SqliteList_prepend_eq:
  "SqliteList_prepend s x =
     (case sql_min (list_rows s) of
        None \<Rightarrow>
          (Inr (),
           do_write (s\<lparr>log := log s @ [Execute (INSERT_INTO (table_name s))],
                       list_rows := list_rows s @ [(1, coder s x)]\<rparr>))
      | Some m \<Rightarrow>
          if m - 1 < i64_min \<or> i64_max < m - 1
          then (Inl (IntegrityError ''datatype mismatch''),
                s\<lparr>log := log s @ [Failed (INSERT_INTO (table_name s))]\<rparr>)
          else (Inr (),
                do_write (s\<lparr>log := log s @ [Execute (INSERT_INTO (table_name s))],
                            list_rows := list_rows s @ [(m - 1, coder s x)]\<rparr>)))"
  by (simp add: SqliteList_prepend_def sql_insert_min split: option.splits)

lemma SqliteList_pop_last_eq:
  assumes "sql_max (list_rows s) = Some M" and ntx: "\<not> in_transaction s"
  shows "\<exists>t. map_of (list_rows s) M = Some t \<and>
     SqliteList_pop_last s =
       (Inr (decoder s t),
        do_write (s\<lparr>log := log s @ [Execute BEGIN_TRANSACTION, Execute (DELETE_FROM (table_name s)), Db_commit],
                    list_rows := filter (\<lambda>r. fst r \<noteq> M) (list_rows s)\<rparr>))"
proof -
  from sql_max_mem [OF assms(1)] have "map_of (list_rows s) M \<noteq> None"
    by (simp add: map_of_eq_None_iff)
  then obtain t where t: "map_of (list_rows s) M = Some t" by blast
  from assms have "list_rows s \<noteq> []" by (auto simp add: sql_max_def)
  then have "\<not> getlen s < 1" by (cases "list_rows s") (simp_all add: getlen_def sql_count_def)
  with t assms show ?thesis
    by (simp add: SqliteList_pop_last_def Let_def getlen_def sql_select_value_def sql_delete_index_Some)
qed

lemma SqliteList_pop_first_eq:
  assumes "sql_min (list_rows s) = Some m" and ntx: "\<not> in_transaction s"
  shows "\<exists>t. map_of (list_rows s) m = Some t \<and>
     SqliteList_pop_first s =
       (Inr (decoder s t),
        do_write (s\<lparr>log := log s @ [Execute BEGIN_TRANSACTION, Execute (DELETE_FROM (table_name s)), Db_commit],
                    list_rows := filter (\<lambda>r. fst r \<noteq> m) (list_rows s)\<rparr>))"
proof -
  from sql_min_mem [OF assms(1)] have "map_of (list_rows s) m \<noteq> None"
    by (simp add: map_of_eq_None_iff)
  then obtain t where t: "map_of (list_rows s) m = Some t" by blast
  from assms have "list_rows s \<noteq> []" by (auto simp add: sql_min_def)
  then have "\<not> getlen s < 1" by (cases "list_rows s") (simp_all add: getlen_def sql_count_def)
  with t assms show ?thesis
    by (simp add: SqliteList_pop_first_def Let_def getlen_def sql_select_value_def sql_delete_index_Some)
qed

subsection \<open>The ends of the sequence\<close>

lemma lookup_after_append:
  assumes "list_inv t"
  shows "\<exists>m'. sql_min (t @ [(auto_rowid t, v)]) = Some m'
            \<and> map_of (t @ [(auto_rowid t, v)]) (m' + int (length t)) = Some v"
proof (cases "sql_max t")
  case None
  then have "t = []" by (simp add: sql_min_max_None)
  then show ?thesis by (simp add: sql_min_def auto_rowid_def sql_max_def)
next
  case (Some M)
  then have "t \<noteq> []" by (auto simp add: sql_max_def)
  then obtain m where m: "sql_min t = Some m" by (auto simp add: sql_min_def)
  note I = list_inv_Some [OF assms m Some]
  have a: "auto_rowid t = M + 1" using Some by (simp add: auto_rowid_def)
  have "sql_min (t @ [(auto_rowid t, v)]) = Some m" using m a I(5) by (simp add: sql_min_snoc)
  moreover have "m + int (length t) = auto_rowid t" using I(1) a by simp
  moreover have "map_of (t @ [(auto_rowid t, v)]) (auto_rowid t) = Some v"
    using auto_rowid_fresh by (rule lookup_snoc_fresh)
  ultimately show ?thesis by simp
qed

lemma lookup_after_prepend:
  assumes "case sql_min t of None \<Rightarrow> p = 1 | Some m \<Rightarrow> p = m - 1"
  shows "sql_min (t @ [(p, v)]) = Some p \<and> map_of (t @ [(p, v)]) (p + 0) = Some v"
proof (cases "sql_min t")
  case None
  then have "t = []" by (simp add: sql_min_max_None)
  then show ?thesis by (simp add: sql_min_def)
next
  case (Some m)
  with assms have p: "p = m - 1" by simp
  have "p \<notin> fst ` set t"
  proof
    assume "p \<in> fst ` set t"
    then have "m \<le> p" by (rule sql_min_le [OF Some])
    with p show False by simp
  qed
  then have "map_of (t @ [(p, v)]) p = Some v" by (rule lookup_snoc_fresh)
  moreover have "sql_min (t @ [(p, v)]) = Some p" using Some p by (simp add: sql_min_snoc)
  ultimately show ?thesis by simp
qed

lemma SqliteList_len_rows: "SqliteList_len s = int (length (list_rows s))"
  by (simp add: SqliteList_len_def getlen_def sql_count_def)

lemma SqliteList_append_ok:
  assumes inv: "list_inv (list_rows s)" and ok: "SqliteList_append s v = (Inr (), s')"
  shows "list_rows s' = list_rows s @ [(auto_rowid (list_rows s), coder s v)]"
    and "coder s' = coder s" and "decoder s' = decoder s" and "table_name s' = table_name s"
    and "list_others s' = list_others s"
    and "list_inv (list_rows s')"
    and "do_write_calls (log s') = do_write_calls (log s) + 1"
proof -
  from ok have range: "\<not> (auto_rowid (list_rows s) < i64_min \<or> i64_max < auto_rowid (list_rows s))"
    and s': "s' = do_write (s\<lparr>log := log s @ [Execute (INSERT_INTO (table_name s))],
                        list_rows := list_rows s @ [(auto_rowid (list_rows s), coder s v)]\<rparr>)"
    by (simp_all add: SqliteList_append_eq split: if_splits)
  show rows: "list_rows s' = list_rows s @ [(auto_rowid (list_rows s), coder s v)]"
    and "coder s' = coder s" and "decoder s' = decoder s" and "table_name s' = table_name s"
    and "list_others s' = list_others s"
    and "do_write_calls (log s') = do_write_calls (log s) + 1"
    by (simp_all add: s')
  from range have "auto_rowid (list_rows s) \<le> i64_max" by simp
  with inv show "list_inv (list_rows s')" unfolding rows by (rule list_inv_snoc_max)
qed

lemma SqliteList_prepend_ok:
  assumes inv: "list_inv (list_rows s)" and ok: "SqliteList_prepend s v = (Inr (), s')"
  shows "\<exists>p. (case sql_min (list_rows s) of None \<Rightarrow> p = 1 | Some m \<Rightarrow> p = m - 1)
            \<and> list_rows s' = list_rows s @ [(p, coder s v)]"
    and "coder s' = coder s" and "decoder s' = decoder s" and "table_name s' = table_name s"
    and "list_others s' = list_others s"
    and "list_inv (list_rows s')"
    and "do_write_calls (log s') = do_write_calls (log s) + 1"
proof -
  show "coder s' = coder s" and "decoder s' = decoder s" and "table_name s' = table_name s"
    and "list_others s' = list_others s"
    and "do_write_calls (log s') = do_write_calls (log s) + 1"
    using ok by (auto simp add: SqliteList_prepend_eq split: option.splits if_splits)
  show "\<exists>p. (case sql_min (list_rows s) of None \<Rightarrow> p = 1 | Some m \<Rightarrow> p = m - 1)
            \<and> list_rows s' = list_rows s @ [(p, coder s v)]"
    using ok by (auto simp add: SqliteList_prepend_eq split: option.splits if_splits)
  show "list_inv (list_rows s')"
  proof (cases "sql_min (list_rows s)")
    case None
    then have "list_rows s = []" by (simp add: sql_min_max_None)
    with ok None show ?thesis
      by (auto simp add: SqliteList_prepend_eq list_inv_def i64_min_def i64_max_def)
  next
    case (Some m)
    with ok have "i64_min \<le> m - 1" and "list_rows s' = list_rows s @ [(m - 1, coder s v)]"
      by (auto simp add: SqliteList_prepend_eq split: if_splits)
    with list_inv_snoc_min [OF inv Some] show ?thesis by simp
  qed
qed

lemma SqliteList_pop_last_ok:
  assumes inv: "list_inv (list_rows s)" and ok: "SqliteList_pop_last s = (Inr x, s')"
  shows "\<exists>M. sql_max (list_rows s) = Some M
            \<and> list_rows s' = filter (\<lambda>r. fst r \<noteq> M) (list_rows s)
            \<and> map_of (list_rows s) M = Some (the (map_of (list_rows s) M))
            \<and> x = decoder s (the (map_of (list_rows s) M))"
    and "list_inv (list_rows s')"
    and "SqliteList_len s' = SqliteList_len s - 1"
    and "do_write_calls (log s') = do_write_calls (log s) + 1"
    and "\<not> in_transaction s"
proof -
  have ntx: "\<not> in_transaction s"
  proof
    assume "in_transaction s"
    then have "fst (SqliteList_pop_last s)
        = Inl (OperationalError ''cannot start a transaction within a transaction'')"
      by (simp add: SqliteList_pop_last_def)
    with ok show False by simp
  qed
  have ne: "list_rows s \<noteq> []"
  proof
    assume "list_rows s = []"
    with ntx have "fst (SqliteList_pop_last s) = Inl (NameError ''cusror'')"
      by (simp add: SqliteList_pop_last_def Let_def getlen_def sql_count_def)
    with ok show False by simp
  qed
  then obtain m M where m: "sql_min (list_rows s) = Some m" and M: "sql_max (list_rows s) = Some M"
    by (auto simp add: sql_min_def sql_max_def)
  from SqliteList_pop_last_eq [OF M ntx] ok obtain t where t: "map_of (list_rows s) M = Some t"
    and x: "x = decoder s t"
    and s': "s' = do_write (s\<lparr>log := log s @ [Execute BEGIN_TRANSACTION,
                     Execute (DELETE_FROM (table_name s)), Db_commit],
                   list_rows := filter (\<lambda>r. fst r \<noteq> M) (list_rows s)\<rparr>)"
    by auto
  have rows: "list_rows s' = filter (\<lambda>r. fst r \<noteq> M) (list_rows s)" by (simp add: s')
  with M t x show "\<exists>M. sql_max (list_rows s) = Some M
            \<and> list_rows s' = filter (\<lambda>r. fst r \<noteq> M) (list_rows s)
            \<and> map_of (list_rows s) M = Some (the (map_of (list_rows s) M))
            \<and> x = decoder s (the (map_of (list_rows s) M))" by simp
  show "list_inv (list_rows s')" unfolding rows by (rule list_inv_delete_end [OF inv m M]) simp
  have "int (length (list_rows s) - 1) = int (length (list_rows s)) - 1"
    using ne by (rule int_length_pred)
  with length_delete_key [OF list_inv_distinct [OF inv] sql_max_mem [OF M]]
  show "SqliteList_len s' = SqliteList_len s - 1" by (simp add: SqliteList_len_rows rows)
  show "do_write_calls (log s') = do_write_calls (log s) + 1" by (simp add: s')
  show "\<not> in_transaction s" by (rule ntx)
qed

lemma SqliteList_pop_first_ok:
  assumes inv: "list_inv (list_rows s)" and ok: "SqliteList_pop_first s = (Inr x, s')"
  shows "\<exists>m. sql_min (list_rows s) = Some m
            \<and> list_rows s' = filter (\<lambda>r. fst r \<noteq> m) (list_rows s)
            \<and> map_of (list_rows s) m = Some (the (map_of (list_rows s) m))
            \<and> x = decoder s (the (map_of (list_rows s) m))"
    and "list_inv (list_rows s')"
    and "SqliteList_len s' = SqliteList_len s - 1"
    and "do_write_calls (log s') = do_write_calls (log s) + 1"
    and "\<not> in_transaction s"
proof -
  have ntx: "\<not> in_transaction s"
  proof
    assume "in_transaction s"
    then have "fst (SqliteList_pop_first s)
        = Inl (OperationalError ''cannot start a transaction within a transaction'')"
      by (simp add: SqliteList_pop_first_def)
    with ok show False by simp
  qed
  have ne: "list_rows s \<noteq> []"
  proof
    assume "list_rows s = []"
    with ntx have "fst (SqliteList_pop_first s) = Inl (NameError ''cusror'')"
      by (simp add: SqliteList_pop_first_def Let_def getlen_def sql_count_def)
    with ok show False by simp
  qed
  then obtain m M where m: "sql_min (list_rows s) = Some m" and M: "sql_max (list_rows s) = Some M"
    by (auto simp add: sql_min_def sql_max_def)
  from SqliteList_pop_first_eq [OF m ntx] ok obtain t where t: "map_of (list_rows s) m = Some t"
    and x: "x = decoder s t"
    and s': "s' = do_write (s\<lparr>log := log s @ [Execute BEGIN_TRANSACTION,
                     Execute (DELETE_FROM (table_name s)), Db_commit],
                   list_rows := filter (\<lambda>r. fst r \<noteq> m) (list_rows s)\<rparr>)"
    by auto
  have rows: "list_rows s' = filter (\<lambda>r. fst r \<noteq> m) (list_rows s)" by (simp add: s')
  with m t x show "\<exists>m. sql_min (list_rows s) = Some m
            \<and> list_rows s' = filter (\<lambda>r. fst r \<noteq> m) (list_rows s)
            \<and> map_of (list_rows s) m = Some (the (map_of (list_rows s) m))
            \<and> x = decoder s (the (map_of (list_rows s) m))" by simp
  show "list_inv (list_rows s')" unfolding rows by (rule list_inv_delete_end [OF inv m M]) simp
  have "int (length (list_rows s) - 1) = int (length (list_rows s)) - 1"
    using ne by (rule int_length_pred)
  with length_delete_key [OF list_inv_distinct [OF inv] sql_min_mem [OF m]]
  show "SqliteList_len s' = SqliteList_len s - 1" by (simp add: SqliteList_len_rows rows)
  show "do_write_calls (log s') = do_write_calls (log s) + 1" by (simp add: s')
  show "\<not> in_transaction s" by (rule ntx)
qed

text \<open>Two containers with writes that are not committed yet (\<^verbatim>\<open>commit_every\<close> 5 and 3): a
  pop after a failed pop and an append, and a pop after two appends, on a connection
  with the default isolation level and on one in autocommit mode.\<close>

lemma SqliteList_pop_inside_transaction:
  "fst (SqliteList_pop_last (snd (SqliteList_append (snd (SqliteList_pop_last (snd
      (SqliteList_init [] Map.empty example_coder example_decoder 5 None lvl)))) 1)))
     = Inl (OperationalError ''cannot start a transaction within a transaction'')"
  "fst (SqliteList_pop_last (snd
      (SqliteList_init [1, 2] Map.empty example_coder example_decoder 3 None (Some []))))
     = Inl (OperationalError ''cannot start a transaction within a transaction'')"
  "fst (SqliteList_pop_last (snd
      (SqliteList_init [1, 2] Map.empty example_coder example_decoder 3 None None)))
     = Inr 2"
  by (simp_all add: SqliteList_init_def SqliteList_table_name_def SqliteList_append_def
      SqliteList_pop_last_def sql_insert_def sql_max_def sql_min_def auto_rowid_def
      sql_select_value_def sql_delete_index_def getlen_def sql_count_def
      i64_max_def i64_min_def in_transaction_def do_write_def Let_def
      example_coder_def example_decoder_def split: option.splits)

text \<open>
  C5. For every sequence container with a well-formed table (the empty one included) and
  every value \<open>v\<close>: after a successful \<^verbatim>\<open>append(v)\<close>, \<open>get (length - 1)\<close> is the decoded
  encoding of \<open>v\<close>; after a successful \<^verbatim>\<open>prepend(v)\<close>, \<open>get 0\<close> is; either makes the length
  one more, and a successful \<^verbatim>\<open>pop_first\<close> or \<^verbatim>\<open>pop_last\<close> makes it one less; the table
  stays well-formed. \<^verbatim>\<open>append\<close> succeeds unless the largest index is the largest 64-bit
  integer, \<^verbatim>\<open>prepend\<close> unless the smallest index is the smallest one, and the two pops
  succeed on every non-empty container whose connection has no transaction open; with
  a transaction open they fail at their \<^verbatim>\<open>BEGIN TRANSACTION\<close>.
\<close>

theorem SqliteList_ends:
  assumes inv: "list_inv (list_rows s)"
  shows "(\<forall>s'. SqliteList_append s v = (Inr (), s') \<longrightarrow>
            SqliteList_getitem s' (IntKey (SqliteList_len s' - 1)) = Inr (Value (decoder s (coder s v)))
            \<and> SqliteList_len s' = SqliteList_len s + 1 \<and> list_inv (list_rows s'))
       \<and> (\<forall>s'. SqliteList_prepend s v = (Inr (), s') \<longrightarrow>
            SqliteList_getitem s' (IntKey 0) = Inr (Value (decoder s (coder s v)))
            \<and> SqliteList_len s' = SqliteList_len s + 1 \<and> list_inv (list_rows s'))
       \<and> (\<forall>x s'. SqliteList_pop_first s = (Inr x, s') \<longrightarrow>
            SqliteList_len s' = SqliteList_len s - 1 \<and> list_inv (list_rows s'))
       \<and> (\<forall>x s'. SqliteList_pop_last s = (Inr x, s') \<longrightarrow>
            SqliteList_len s' = SqliteList_len s - 1 \<and> list_inv (list_rows s'))
       \<and> (sql_max (list_rows s) \<noteq> Some i64_max \<longrightarrow> fst (SqliteList_append s v) = Inr ())
       \<and> (sql_min (list_rows s) \<noteq> Some i64_min \<longrightarrow> fst (SqliteList_prepend s v) = Inr ())
       \<and> (0 < SqliteList_len s \<and> \<not> in_transaction s \<longrightarrow>
            (\<exists>x. fst (SqliteList_pop_first s) = Inr x) \<and> (\<exists>x. fst (SqliteList_pop_last s) = Inr x))
       \<and> (in_transaction s \<longrightarrow>
            fst (SqliteList_pop_first s)
              = Inl (OperationalError ''cannot start a transaction within a transaction'')
            \<and> fst (SqliteList_pop_last s)
              = Inl (OperationalError ''cannot start a transaction within a transaction''))"
proof -
  have open_tx: "fst (SqliteList_pop_first s)
        = Inl (OperationalError ''cannot start a transaction within a transaction'')
      \<and> fst (SqliteList_pop_last s)
        = Inl (OperationalError ''cannot start a transaction within a transaction'')"
    if "in_transaction s"
    using that by (simp add: SqliteList_pop_first_def SqliteList_pop_last_def)
  have app: "SqliteList_getitem s' (IntKey (SqliteList_len s' - 1)) = Inr (Value (decoder s (coder s v)))
      \<and> SqliteList_len s' = SqliteList_len s + 1 \<and> list_inv (list_rows s')"
    if ok: "SqliteList_append s v = (Inr (), s')" for s'
  proof -
    note A = SqliteList_append_ok [OF inv ok]
    from lookup_after_append [OF inv, of "coder s v"] obtain m'
      where m': "sql_min (list_rows s') = Some m'"
        and look: "map_of (list_rows s') (m' + int (length (list_rows s))) = Some (coder s v)"
      unfolding A(1) by blast
    have len: "SqliteList_len s' = SqliteList_len s + 1" by (simp add: SqliteList_len_rows A(1))
    have "SqliteList_getitem s' (IntKey (int (length (list_rows s)))) = Inr (Value (decoder s' (coder s v)))"
      using m' look by (intro SqliteList_getitem_at) (simp_all add: A(1))
    moreover have "SqliteList_len s' - 1 = int (length (list_rows s))"
      by (simp add: SqliteList_len_rows A(1))
    ultimately show ?thesis using len A(3,6) by simp
  qed
  have pre: "SqliteList_getitem s' (IntKey 0) = Inr (Value (decoder s (coder s v)))
      \<and> SqliteList_len s' = SqliteList_len s + 1 \<and> list_inv (list_rows s')"
    if ok: "SqliteList_prepend s v = (Inr (), s')" for s'
  proof -
    note P = SqliteList_prepend_ok [OF inv ok]
    from P(1) obtain p where p: "case sql_min (list_rows s) of None \<Rightarrow> p = 1 | Some m \<Rightarrow> p = m - 1"
      and rows: "list_rows s' = list_rows s @ [(p, coder s v)]" by blast
    from lookup_after_prepend [OF p, of "coder s v"]
    have m': "sql_min (list_rows s') = Some p" and look: "map_of (list_rows s') (p + 0) = Some (coder s v)"
      unfolding rows by simp_all
    have len: "SqliteList_len s' = SqliteList_len s + 1" by (simp add: SqliteList_len_rows rows)
    have "SqliteList_getitem s' (IntKey 0) = Inr (Value (decoder s' (coder s v)))"
      using m' look by (intro SqliteList_getitem_at) (simp_all add: rows)
    then show ?thesis using len P(3,6) by simp
  qed
  have app_ok: "fst (SqliteList_append s v) = Inr ()" if "sql_max (list_rows s) \<noteq> Some i64_max"
  proof (cases "sql_max (list_rows s)")
    case None
    then show ?thesis
      by (simp add: SqliteList_append_eq auto_rowid_def i64_min_def i64_max_def)
  next
    case (Some M)
    then have "list_rows s \<noteq> []" by (auto simp add: sql_max_def)
    then obtain m where m: "sql_min (list_rows s) = Some m" by (auto simp add: sql_min_def)
    note I = list_inv_Some [OF inv m Some]
    from that Some I(3,4,5) have "i64_min \<le> M + 1" "M + 1 \<le> i64_max" by simp_all
    with Some show ?thesis by (simp add: SqliteList_append_eq auto_rowid_def)
  qed
  have pre_ok: "fst (SqliteList_prepend s v) = Inr ()" if "sql_min (list_rows s) \<noteq> Some i64_min"
  proof (cases "sql_min (list_rows s)")
    case None
    then show ?thesis by (simp add: SqliteList_prepend_eq)
  next
    case (Some m)
    then have "list_rows s \<noteq> []" by (auto simp add: sql_min_def)
    then obtain M where M: "sql_max (list_rows s) = Some M" by (auto simp add: sql_max_def)
    note I = list_inv_Some [OF inv Some M]
    from that Some I(3,4,5) have "i64_min \<le> m - 1" "m - 1 \<le> i64_max" by simp_all
    with Some show ?thesis by (simp add: SqliteList_prepend_eq)
  qed
  have pops: "(\<exists>x. fst (SqliteList_pop_first s) = Inr x) \<and> (\<exists>x. fst (SqliteList_pop_last s) = Inr x)"
    if "0 < SqliteList_len s" and ntx: "\<not> in_transaction s"
  proof -
    from that have "list_rows s \<noteq> []" by (auto simp add: SqliteList_len_rows)
    then obtain m M where m: "sql_min (list_rows s) = Some m" and M: "sql_max (list_rows s) = Some M"
      by (auto simp add: sql_min_def sql_max_def)
    from SqliteList_pop_first_eq [OF m ntx] SqliteList_pop_last_eq [OF M ntx] show ?thesis by force
  qed
  show ?thesis
    using app pre SqliteList_pop_first_ok(2,3) [OF inv] SqliteList_pop_last_ok(2,3) [OF inv]
      app_ok pre_ok pops open_tx
    by blast
qed

lemma example_empty_eval:
  "list_rows example_empty = []"
  "coder example_empty = example_coder"
  "decoder example_empty = example_decoder"
  "table_name example_empty = ''list''"
  "log example_empty = []"
  "isolation_level example_empty = Some []"
  by (simp_all add: example_empty_def SqliteList_init_def SqliteList_table_name_def)

theorem SqliteList_ends_witness:
  "list_inv (list_rows example_empty)
   \<and> SqliteList_len example_empty = 0
   \<and> fst (SqliteList_append example_empty 7) = Inr ()
   \<and> SqliteList_len (snd (SqliteList_append example_empty 7)) = 1
   \<and> SqliteList_getitem (snd (SqliteList_append example_empty 7)) (IntKey (1 - 1)) = Inr (Value 7)
   \<and> fst (SqliteList_prepend example_empty 7) = Inr ()
   \<and> SqliteList_getitem (snd (SqliteList_prepend example_empty 7)) (IntKey 0) = Inr (Value 7)
   \<and> list_inv (list_rows example_list)
   \<and> \<not> in_transaction example_list
   \<and> SqliteList_getitem (snd (SqliteList_append example_list 7)) (IntKey (6 - 1)) = Inr (Value 7)
   \<and> SqliteList_getitem (snd (SqliteList_prepend example_list 7)) (IntKey 0) = Inr (Value 7)
   \<and> fst (SqliteList_pop_first example_list) = Inr 10
   \<and> SqliteList_len (snd (SqliteList_pop_first example_list)) = 4
   \<and> fst (SqliteList_pop_last example_list) = Inr 50
   \<and> SqliteList_len (snd (SqliteList_pop_last example_list)) = 4"
proof -
  have e: "list_inv (list_rows example_empty)" by (simp add: example_empty_eval list_inv_def)
  note E = SqliteList_ends [OF e, of 7]
  note L = SqliteList_ends [OF example_list_inv, of 7]
  have len0: "SqliteList_len example_empty = 0" by (simp add: SqliteList_len_rows example_empty_eval)
  have len5: "SqliteList_len example_list = 5" by (simp add: example_list_eval)
  have cd: "decoder example_empty (coder example_empty 7) = 7"
    "decoder example_list (coder example_list 7) = 7"
    by (simp_all add: example_empty_eval example_list_fields example_coder_def example_decoder_def)
  have a: "SqliteList_append example_empty 7 = (Inr (), snd (SqliteList_append example_empty 7))"
    by (simp add: SqliteList_append_eq example_empty_eval auto_rowid_def sql_max_def i64_min_def i64_max_def)
  have p: "SqliteList_prepend example_empty 7 = (Inr (), snd (SqliteList_prepend example_empty 7))"
    by (simp add: SqliteList_prepend_eq example_empty_eval sql_min_def)
  have la: "SqliteList_append example_list 7 = (Inr (), snd (SqliteList_append example_list 7))"
    by (simp add: SqliteList_append_eq example_list_eval auto_rowid_def i64_min_def i64_max_def)
  have lp: "SqliteList_prepend example_list 7 = (Inr (), snd (SqliteList_prepend example_list 7))"
    by (simp add: SqliteList_prepend_eq example_list_eval i64_min_def i64_max_def)
  have fa: "fst (SqliteList_append example_empty 7) = Inr ()" by (subst a) simp
  have fp: "fst (SqliteList_prepend example_empty 7) = Inr ()" by (subst p) simp
  let ?A = "snd (SqliteList_append example_empty 7)" and ?P = "snd (SqliteList_prepend example_empty 7)"
  let ?LA = "snd (SqliteList_append example_list 7)" and ?LP = "snd (SqliteList_prepend example_list 7)"
  from E a have "SqliteList_getitem ?A (IntKey (SqliteList_len ?A - 1))
        = Inr (Value (decoder example_empty (coder example_empty 7)))
      \<and> SqliteList_len ?A = SqliteList_len example_empty + 1" by blast
  then have ga': "SqliteList_getitem ?A (IntKey (1 - 1)) = Inr (Value 7)"
    and la1: "SqliteList_len ?A = 1"
    by (auto simp add: cd len0 simp del: SqliteList_getitem.simps)
  from E p have "SqliteList_getitem ?P (IntKey 0)
        = Inr (Value (decoder example_empty (coder example_empty 7)))" by blast
  then have gp: "SqliteList_getitem ?P (IntKey 0) = Inr (Value 7)"
    by (simp add: cd del: SqliteList_getitem.simps)
  from L la have "SqliteList_getitem ?LA (IntKey (SqliteList_len ?LA - 1))
        = Inr (Value (decoder example_list (coder example_list 7)))
      \<and> SqliteList_len ?LA = SqliteList_len example_list + 1" by blast
  then have gla': "SqliteList_getitem ?LA (IntKey (6 - 1)) = Inr (Value 7)"
    by (auto simp add: cd len5 simp del: SqliteList_getitem.simps)
  from L lp have "SqliteList_getitem ?LP (IntKey 0)
        = Inr (Value (decoder example_list (coder example_list 7)))" by blast
  then have glp: "SqliteList_getitem ?LP (IntKey 0) = Inr (Value 7)"
    by (simp add: cd del: SqliteList_getitem.simps)
  have pf: "fst (SqliteList_pop_first example_list) = Inr 10"
    "SqliteList_len (snd (SqliteList_pop_first example_list)) = 4"
    by (simp_all add: SqliteList_pop_first_def Let_def sql_delete_index_def SqliteList_len_rows
        example_list_eval example_list_tx)
  have pl: "fst (SqliteList_pop_last example_list) = Inr 50"
    "SqliteList_len (snd (SqliteList_pop_last example_list)) = 4"
    by (simp_all add: SqliteList_pop_last_def Let_def sql_delete_index_def SqliteList_len_rows
        example_list_eval example_list_tx)
  from e len0 fa la1 ga' fp gp example_list_inv example_list_tx gla' glp pf pl
  show ?thesis by blast
qed

subsection \<open>Overwriting an element\<close>

lemma sql_replace_present:
  assumes "distinct (map fst t)" "p \<in> fst ` set t" "i64_min \<le> p" "p \<le> i64_max"
  shows "sql_replace t (Some p) v = Inr (filter (\<lambda>r. fst r \<noteq> p) t @ [(p, v)])"
  using assms by (auto simp add: sql_replace_def sql_insert_def sql_delete_index_Some)

lemma keys_replace:
  "p \<in> fst ` set t \<Longrightarrow> fst ` set (filter (\<lambda>r. fst r \<noteq> p) t @ [(p, v)]) = fst ` set t"
  by (auto simp add: keys_delete)

lemma map_of_replace:
  "map_of (filter (\<lambda>r. fst r \<noteq> p) t @ [(p, v)]) k = (if k = p then Some v else map_of t k)"
  by (simp add: map_add_def map_of_delete_key split: option.splits)

lemma length_replace:
  assumes "distinct (map fst t)" "p \<in> fst ` set t"
  shows "length (filter (\<lambda>r. fst r \<noteq> p) t @ [(p, v)]) = length t"
proof -
  from assms(2) have "t \<noteq> []" by auto
  then have "0 < length t" by simp
  with length_delete_key [OF assms] show ?thesis by simp
qed

lemma sql_min_max_keys:
  assumes "fst ` set t' = fst ` set t"
  shows "sql_min t' = sql_min t" and "sql_max t' = sql_max t"
proof -
  have "(t' = []) = (t = [])" using assms by (metis image_is_empty set_empty)
  with assms show "sql_min t' = sql_min t" and "sql_max t' = sql_max t"
    by (simp_all add: sql_min_def sql_max_def)
qed

lemma list_inv_replace:
  assumes inv: "list_inv t" and p: "p \<in> fst ` set t"
  shows "list_inv (filter (\<lambda>r. fst r \<noteq> p) t @ [(p, v)])"
proof (rule list_invI)
  let ?t' = "filter (\<lambda>r. fst r \<noteq> p) t @ [(p, v)]"
  have d: "distinct (map fst t)" by (rule list_inv_distinct [OF inv])
  have b: "\<forall>r\<in>set t. i64_min \<le> fst r \<and> fst r \<le> i64_max"
    using inv by (simp add: list_inv_def list_all_iff)
  show "distinct (map fst ?t')" using d by (auto simp add: distinct_map_filter)
  show "\<forall>r\<in>set ?t'. i64_min \<le> fst r \<and> fst r \<le> i64_max" using b p by auto
  fix m M
  assume "sql_min ?t' = Some m" "sql_max ?t' = Some M"
  then have "sql_min t = Some m" "sql_max t = Some M"
    using sql_min_max_keys [OF keys_replace [OF p, of v]] by simp_all
  from list_inv_Some(1) [OF inv this] show "M - m + 1 = int (length ?t')"
    by (simp only: length_replace [OF d p])
qed

lemma SqliteList_setitem_default:
  assumes inv: "list_inv (list_rows s)" and name: "table_name s = ''list''"
    and i: "i = (if k < 0 then SqliteList_len s + k else k)" "0 \<le> i" "i < SqliteList_len s"
  shows "\<exists>s'. SqliteList_setitem s (IntKey k) v = (Inr (), s')
            \<and> SqliteList_len s' = SqliteList_len s
            \<and> SqliteList_getitem s' (IntKey i) = Inr (Value (decoder s (coder s v)))
            \<and> (\<forall>j. j \<noteq> i \<and> 0 \<le> j \<and> j < SqliteList_len s \<longrightarrow>
                  SqliteList_getitem s' (IntKey j) = SqliteList_getitem s (IntKey j))
            \<and> list_inv (list_rows s') \<and> list_others s' = list_others s
            \<and> do_write_calls (log s') = do_write_calls (log s) + 1"
proof -
  let ?t = "list_rows s"
  from i have ne: "?t \<noteq> []" by (auto simp add: SqliteList_len_rows)
  then obtain m M where m: "sql_min ?t = Some m" and M: "sql_max ?t = Some M"
    by (auto simp add: sql_min_def sql_max_def)
  note I = list_inv_Some [OF inv m M]
  let ?p = "m + i"
  let ?t' = "filter (\<lambda>r. fst r \<noteq> ?p) ?t @ [(?p, coder s v)]"
  have le: "?p \<le> M" using I(1) i(2,3) by (simp add: SqliteList_len_rows)
  then have p: "?p \<in> fst ` set ?t" using i(2) by (simp add: I(2))
  have rep: "sql_replace ?t (Some ?p) (coder s v) = Inr ?t'"
    using list_inv_distinct [OF inv] p I(3,4) i(2) le by (intro sql_replace_present) simp_all
  define s' where "s' = do_write ((s\<lparr>list_rows := ?t'\<rparr>)\<lparr>log := log s @ [Execute (REPLACE_INTO ''list'')]\<rparr>)"
  have set: "SqliteList_setitem s (IntKey k) v = (Inr (), s')"
    using i m rep name
    by (auto simp add: SqliteList_setitem_def Let_def lookup_table_def store_table_def s'_def)
  have rows: "list_rows s' = ?t'" and dec: "decoder s' = decoder s"
    and oth: "list_others s' = list_others s"
    and calls: "do_write_calls (log s') = do_write_calls (log s) + 1"
    by (simp_all add: s'_def)
  have len: "length (list_rows s') = length ?t"
    unfolding rows by (rule length_replace [OF list_inv_distinct [OF inv] p])
  have min: "sql_min (list_rows s') = Some m"
    unfolding rows using sql_min_max_keys(1) [OF keys_replace [OF p]] m by simp
  have look: "map_of (list_rows s') q = (if q = ?p then Some (coder s v) else map_of ?t q)" for q
    unfolding rows by (rule map_of_replace)
  have "SqliteList_getitem s' (IntKey i) = Inr (Value (decoder s' (coder s v)))"
    using i(2,3) min look [of ?p] by (intro SqliteList_getitem_at) (simp_all add: len SqliteList_len_rows)
  moreover have "SqliteList_getitem s' (IntKey j) = SqliteList_getitem s (IntKey j)"
    if "j \<noteq> i" "0 \<le> j" "j < SqliteList_len s" for j
    using that min m look [of "m + j"]
    by (simp add: getlen_def sql_count_def len sql_select_value_def dec SqliteList_len_rows
        split: option.splits)
  moreover have "list_inv (list_rows s')" unfolding rows by (rule list_inv_replace [OF inv p])
  moreover have "SqliteList_len s' = SqliteList_len s" by (simp add: SqliteList_len_rows len)
  ultimately show ?thesis using set dec oth calls by auto
qed

lemma list_inv_clear: "list_inv (list_rows (snd (SqliteList_clear s)))"
  by (simp add: SqliteList_clear_def list_inv_def)

lemma list_inv_append_all:
  "list_inv (list_rows s) \<Longrightarrow> list_inv (list_rows (snd (append_all s xs)))"
proof (induction xs arbitrary: s)
  case Nil
  then show ?case by simp
next
  case (Cons x xs)
  show ?case
  proof (cases "SqliteList_append s x")
    case (Pair r s')
    show ?thesis
    proof (cases r)
      case (Inl e)
      with Pair have "list_rows s' = list_rows s"
        by (auto simp add: SqliteList_append_eq split: if_splits)
      with Pair Inl Cons.prems show ?thesis by simp
    next
      case (Inr u)
      with Pair have "SqliteList_append s x = (Inr (), s')" by simp
      from SqliteList_append_ok(6) [OF Cons.prems this] have "list_inv (list_rows s')" .
      then have "list_inv (list_rows (snd (append_all s' xs)))" by (rule Cons.IH)
      with Pair Inr show ?thesis by simp
    qed
  qed
qed

lemma list_inv_init:
  "list_inv (list_rows (snd (SqliteList_init init_list Map.empty c d every name isolation)))"
  unfolding SqliteList_init_def by (rule list_inv_append_all) (simp add: list_inv_def)

lemma example_named_eval:
  "list_rows example_named = [(1, example_coder 10), (2, example_coder 20)]"
  "coder example_named = example_coder"
  "decoder example_named = example_decoder"
  "table_name example_named = ''a_list_table''"
  "list_others example_named = Map.empty"
  by (simp_all add: example_named_def SqliteList_init_def SqliteList_table_name_def
      SqliteList_append_def sql_insert_def sql_max_def auto_rowid_def i64_max_def i64_min_def)

lemma example_shared_eval:
  "list_rows example_shared = [(1, example_coder 10), (2, example_coder 20)]"
  "coder example_shared = example_coder"
  "decoder example_shared = example_decoder"
  "table_name example_shared = ''a_list_table''"
  "list_others example_shared = [''list'' \<mapsto> [(1, example_coder 1), (2, example_coder 2)]]"
  by (simp_all add: example_shared_def SqliteList_init_def SqliteList_table_name_def
      SqliteList_append_def sql_insert_def sql_max_def auto_rowid_def i64_max_def i64_min_def)

text \<open>
  C1. The specification says that \<^verbatim>\<open>set(i, v)\<close> overwrites the element at \<open>i\<close> for every
  container, whatever its name. For a container whose table is the default \<^verbatim>\<open>list\<close> that
  is so (lemma \<open>SqliteList_setitem_default\<close>). For the container named \<^verbatim>\<open>a\<close>, whose table
  is \<^verbatim>\<open>a_list_table\<close>, the \<^verbatim>\<open>REPLACE\<close> statement still addresses the table \<^verbatim>\<open>list\<close>: in a
  new file the call fails with \<^verbatim>\<open>OperationalError\<close> and changes nothing; in a file shared
  with an unnamed list the call succeeds, the container's own element is unchanged, and
  the row of the other list at the computed index is overwritten.
\<close>

theorem SqliteList_setitem_named:
  "table_name example_named = ''a_list_table''
   \<and> SqliteList_len example_named = 2
   \<and> SqliteList_getitem example_named (IntKey 1) = Inr (Value 20)
   \<and> SqliteList_setitem example_named (IntKey 1) 99
       = (Inl (OperationalError ''no such table: list''), example_named)
   \<and> fst (SqliteList_setitem example_shared (IntKey 1) 99) = Inr ()
   \<and> SqliteList_getitem (snd (SqliteList_setitem example_shared (IntKey 1) 99)) (IntKey 1)
       = Inr (Value 20)
   \<and> list_others example_shared ''list'' = Some [(1, example_coder 1), (2, example_coder 2)]
   \<and> list_others (snd (SqliteList_setitem example_shared (IntKey 1) 99)) ''list''
       = Some [(1, example_coder 1), (2, example_coder 99)]"
  by (simp add: SqliteList_setitem_def Let_def lookup_table_def store_table_def
      sql_replace_def sql_insert_def sql_delete_index_def i64_min_def i64_max_def
      example_named_eval example_shared_eval getlen_def SqliteList_len_def sql_count_def
      sql_min_def sql_max_def sql_select_value_def example_decoder_def example_coder_def)

subsection \<open>Slicing\<close>

lemma range_slice_1_4_1: "range_slice 5 (Some 1) (Some 4) (Some 1) = Inr [1, 2, 3]"
  by (simp add: range_slice_def py_range_def upt_rec)

text \<open>
  C7. For a sequence container whose contents, in the order of the indices, are
  \<open>[10, 20, 30, 40, 50]\<close>: the slice \<open>(1, 4, 1)\<close> is answered by the generator over the
  indices 1, 2, 3, which has read no element; run to its end it yields 20, 30, 40, each
  the result of \<^verbatim>\<open>self[i]\<close>; and every \<^verbatim>\<open>next\<close> is one \<^verbatim>\<open>self[i]\<close> on the state \<open>s'\<close> the
  container has at that moment.
\<close>

theorem SqliteList_slice_scenario:
  assumes "list_inv (list_rows s)" and "SqliteList_iter s = [10, 20, 30, 40, 50]"
  shows "SqliteList_getitem s (SliceKey (Some 1) (Some 4) (Some 1)) = Inr (Generator 5 [1, 2, 3])
       \<and> iterate s 5 [1, 2, 3] = [Inr (Value 20), Inr (Value 30), Inr (Value 40)]
       \<and> iterate s 5 [1, 2, 3] = map (\<lambda>i. SqliteList_getitem s (IntKey i)) [1, 2, 3]
       \<and> iterate_next s' 5 [1, 2, 3] = Some (SqliteList_getitem s' (IntKey 1), [2, 3])
       \<and> iterate_next s' 5 [2, 3] = Some (SqliteList_getitem s' (IntKey 2), [3])
       \<and> iterate_next s' 5 [3] = Some (SqliteList_getitem s' (IntKey 3), [])
       \<and> iterate_next s' 5 [] = None"
proof -
  have "length (SqliteList_iter s) = length (list_rows s)" by (simp add: SqliteList_iter_def)
  with assms(2) have len: "getlen s = 5" "SqliteList_len s = 5"
    by (simp_all add: SqliteList_len_def getlen_def sql_count_def)
  have g: "SqliteList_getitem s (IntKey i) = Inr (Value ([10, 20, 30, 40, 50] ! nat i))"
    if "0 \<le> i" "i < 5" for i
    using SqliteList_getitem_iter [OF assms(1) that(1)] that(2) len(2) assms(2) by simp
  have g1: "SqliteList_getitem s (IntKey 1) = Inr (Value 20)" using g [of 1] by simp
  have g2: "SqliteList_getitem s (IntKey 2) = Inr (Value 30)" using g [of 2] by simp
  have g3: "SqliteList_getitem s (IntKey 3) = Inr (Value 40)" using g [of 3] by simp
  have "SqliteList_getitem s (SliceKey (Some 1) (Some 4) (Some 1)) = Inr (Generator 5 [1, 2, 3])"
    by (simp add: len range_slice_1_4_1)
  moreover have "iterate s 5 [1, 2, 3] = [Inr (Value 20), Inr (Value 30), Inr (Value 40)]"
    by (simp add: g1 g2 g3 del: SqliteList_getitem.simps)
  moreover have "iterate s 5 [1, 2, 3] = map (\<lambda>i. SqliteList_getitem s (IntKey i)) [1, 2, 3]"
    by (simp add: g1 g2 g3 del: SqliteList_getitem.simps)
  ultimately show ?thesis by (simp del: SqliteList_getitem.simps)
qed

theorem SqliteList_slice_scenario_witness:
  "list_inv (list_rows example_list)
   \<and> SqliteList_iter example_list = [10, 20, 30, 40, 50]
   \<and> SqliteList_getitem example_list (SliceKey (Some 1) (Some 4) (Some 1)) = Inr (Generator 5 [1, 2, 3])
   \<and> iterate example_list 5 [1, 2, 3] = [Inr (Value 20), Inr (Value 30), Inr (Value 40)]"
  using SqliteList_slice_scenario [OF example_list_inv example_list_iter]
  by (simp add: example_list_inv example_list_iter del: SqliteList_getitem.simps iterate.simps)

subsection \<open>Popping from the empty sequence\<close>

text \<open>
  C2. The specification says that \<^verbatim>\<open>pop_first\<close> and \<^verbatim>\<open>pop_last\<close> of an empty sequence
  fail with \<^verbatim>\<open>IndexError\<close> (its \<^verbatim>\<open>EmptyContainer\<close>) and leave the state unchanged. On a
  container whose table is empty and whose connection has no transaction open (a newly
  constructed one, for example) the code issues \<^verbatim>\<open>BEGIN TRANSACTION\<close> and then raises
  \<^verbatim>\<open>NameError\<close> for the unbound name \<^verbatim>\<open>cusror\<close>; the transaction stays open. With a
  transaction open, as after that first call, the \<^verbatim>\<open>BEGIN TRANSACTION\<close> itself is refused
  with \<^verbatim>\<open>OperationalError\<close>. Neither is the \<^verbatim>\<open>IndexError\<close> of the specification.
\<close>

theorem SqliteList_pop_empty:
  "(list_rows s = [] \<and> \<not> in_transaction s \<longrightarrow>
      SqliteList_pop_last s
        = (Inl (NameError ''cusror''), s\<lparr>log := log s @ [Execute BEGIN_TRANSACTION]\<rparr>)
      \<and> SqliteList_pop_first s
        = (Inl (NameError ''cusror''), s\<lparr>log := log s @ [Execute BEGIN_TRANSACTION]\<rparr>)
      \<and> in_transaction (s\<lparr>log := log s @ [Execute BEGIN_TRANSACTION]\<rparr>))
   \<and> (in_transaction s \<longrightarrow>
      SqliteList_pop_last s
        = (Inl (OperationalError ''cannot start a transaction within a transaction''), s)
      \<and> SqliteList_pop_first s
        = (Inl (OperationalError ''cannot start a transaction within a transaction''), s))"
  by (simp add: SqliteList_pop_last_def SqliteList_pop_first_def Let_def getlen_def sql_count_def)

theorem SqliteList_pop_empty_witness:
  "list_rows example_empty = []
   \<and> \<not> in_transaction example_empty
   \<and> fst (SqliteList_pop_last example_empty) = Inl (NameError ''cusror'')
   \<and> fst (SqliteList_pop_first example_empty) = Inl (NameError ''cusror'')
   \<and> log (snd (SqliteList_pop_last example_empty)) = [Execute BEGIN_TRANSACTION]
   \<and> in_transaction (snd (SqliteList_pop_last example_empty))
   \<and> fst (SqliteList_pop_last (snd (SqliteList_pop_last example_empty)))
       = Inl (OperationalError ''cannot start a transaction within a transaction'')
   \<and> fst (SqliteList_pop_first (snd (SqliteList_pop_last example_empty)))
       = Inl (OperationalError ''cannot start a transaction within a transaction'')"
  using SqliteList_pop_empty [of example_empty]
    SqliteList_pop_empty [of "snd (SqliteList_pop_last example_empty)"]
  by (simp add: example_empty_eval in_transaction_def)

section \<open>Properties of the key/value container\<close>




text \<open>
  C9. For every map, every key \<open>k\<close> that is not in it and every default \<open>dflt\<close>,
  \<^verbatim>\<open>pop(k, dflt)\<close> raises \<^verbatim>\<open>KeyError\<close> and leaves the whole state as it was; the default is
  not returned.
\<close>

theorem SqliteDict_pop_absent:
  "SqliteDict_contains s (Obj k) = Inr False \<Longrightarrow>
     SqliteDict_pop s (Obj k) dflt = (Inl (KeyError ''Mapping key not found in dict''), s)"
  by (simp add: SqliteDict_contains_def SqliteDict_pop_def SqliteDict_getitem_def
      split: option.splits)

theorem SqliteDict_pop_absent_witness:
  "SqliteDict_contains example_dict (Obj 5) = Inr False
   \<and> SqliteDict_pop example_dict (Obj 5) (Some 99)
       = (Inl (KeyError ''Mapping key not found in dict''), example_dict)"
  using SqliteDict_pop_absent [of example_dict 5 "Some 99"]
  by (simp add: SqliteDict_contains_def SqliteDict_getitem_def example_dict_def example_coder_def)

section \<open>Properties of the set container\<close>

text \<open>
  C8. For every set and every \<open>x\<close>, \<^verbatim>\<open>discard(x)\<close> returns normally, the first and the
  second time; the rows after the second call are the rows after the first; \<open>x\<close> is not
  a member afterwards, and the membership of every \<open>y\<close> with another encoding is as
  before.
\<close>

theorem SqliteSet_discard_idempotent:
  "fst (SqliteSet_discard s x) = Inr ()
   \<and> fst (SqliteSet_discard (snd (SqliteSet_discard s x)) x) = Inr ()
   \<and> set_rows (snd (SqliteSet_discard (snd (SqliteSet_discard s x)) x))
       = set_rows (snd (SqliteSet_discard s x))
   \<and> \<not> SqliteSet_contains (snd (SqliteSet_discard s x)) x
   \<and> (\<forall>y. coder s y \<noteq> coder s x \<longrightarrow>
         SqliteSet_contains (snd (SqliteSet_discard s x)) y = SqliteSet_contains s y)"
  by (simp add: SqliteSet_discard_def cursor_discard_def SqliteSet_contains_def cursor_has_def)

theorem SqliteSet_discard_idempotent_witness:
  "fst (SqliteSet_discard example_set 3) = Inr ()
   \<and> set_rows (snd (SqliteSet_discard example_set 3)) = [example_coder 4]
   \<and> set_rows (snd (SqliteSet_discard (snd (SqliteSet_discard example_set 3)) 3)) = [example_coder 4]
   \<and> \<not> SqliteSet_contains (snd (SqliteSet_discard example_set 3)) 3
   \<and> SqliteSet_contains example_set 4
   \<and> SqliteSet_contains (snd (SqliteSet_discard example_set 3)) 4
   \<and> fst (SqliteSet_discard example_set 7) = Inr ()
   \<and> set_rows (snd (SqliteSet_discard example_set 7)) = set_rows example_set"
  using SqliteSet_discard_idempotent [of example_set 3]
  by (simp add: SqliteSet_discard_def cursor_discard_def SqliteSet_contains_def cursor_has_def
      example_set_def example_coder_def)

text \<open>
  C10. In a table with distinct keys whose stored texts the coder and decoder round-trip
  (\<open>coder (decoder t) = t\<close>): \<^verbatim>\<open>pop\<close> of an empty set raises \<^verbatim>\<open>KeyError\<close> and leaves the
  state as it was; \<^verbatim>\<open>pop\<close> of a non-empty set returns a member, which is no member
  afterwards, and the length is one less.
\<close>

theorem SqliteSet_pop_member:
  assumes "distinct (set_rows s)"
    and "\<forall>t \<in> set (set_rows s). coder s (decoder s t) = t"
  shows "(set_rows s = [] \<longrightarrow>
            SqliteSet_pop s = (Inl (KeyError ''Tried to pop empty set_table''), s))
       \<and> (set_rows s \<noteq> [] \<longrightarrow>
            (\<exists>x s'. SqliteSet_pop s = (Inr x, s') \<and> SqliteSet_contains s x
               \<and> \<not> SqliteSet_contains s' x \<and> SqliteSet_len s' = SqliteSet_len s - 1
               \<and> set (set_rows s') = set (set_rows s) - {coder s x}))"
proof (cases "set_rows s")
  case Nil
  then show ?thesis by (simp add: SqliteSet_pop_def)
next
  case (Cons row rest)
  with assms have rt: "coder s (decoder s row) = row" and nin: "row \<notin> set rest" by simp_all
  from nin have "filter (\<lambda>k. k \<noteq> row) rest = rest" by (auto simp add: filter_id_conv)
  with Cons rt nin show ?thesis
    by (auto simp add: SqliteSet_pop_def cursor_discard_def SqliteSet_contains_def cursor_has_def
        SqliteSet_len_def sql_count_def)
qed

theorem SqliteSet_pop_member_witness:
  "distinct (set_rows example_set)
   \<and> SqliteSet_len example_set = 2
   \<and> fst (SqliteSet_pop example_set) = Inr 3
   \<and> SqliteSet_contains example_set 3
   \<and> \<not> SqliteSet_contains (snd (SqliteSet_pop example_set)) 3
   \<and> SqliteSet_len (snd (SqliteSet_pop example_set)) = 1
   \<and> SqliteSet_pop (example_set\<lparr>set_rows := []\<rparr>)
       = (Inl (KeyError ''Tried to pop empty set_table''), example_set\<lparr>set_rows := []\<rparr>)"
  using SqliteSet_pop_member [of example_set] SqliteSet_pop_member [of "example_set\<lparr>set_rows := []\<rparr>"]
  by (simp add: SqliteSet_pop_def cursor_discard_def SqliteSet_contains_def cursor_has_def
      SqliteSet_len_def sql_count_def example_set_def example_coder_def example_decoder_def)

section \<open>Calls of the commit hook\<close>

text \<open>The other mutating methods of the map and of the set call \<^verbatim>\<open>_do_write\<close> once
  when they return normally; for the sequence that is part of the lemmas
  \<open>SqliteList_append_ok\<close>, \<open>SqliteList_prepend_ok\<close>, \<open>SqliteList_pop_first_ok\<close>,
  \<open>SqliteList_pop_last_ok\<close> and \<open>SqliteList_setitem_default\<close>.\<close>

lemma do_write_once:
  "do_write_calls (log (snd (SqliteDict_setitem d (Obj k) v))) = do_write_calls (log d) + 1"
  "do_write_calls (log (snd (SqliteDict_delitem d (Obj k)))) = do_write_calls (log d) + 1"
  "fst (SqliteDict_pop d (Obj k) dflt) = Inr x \<Longrightarrow>
     do_write_calls (log (snd (SqliteDict_pop d (Obj k) dflt))) = do_write_calls (log d) + 1"
  "fst (SqliteDict_popitem d) = Inr y \<Longrightarrow>
     do_write_calls (log (snd (SqliteDict_popitem d))) = do_write_calls (log d) + 1"
  "do_write_calls (log (snd (SqliteSet_add t z))) = do_write_calls (log t) + 1"
  "do_write_calls (log (snd (SqliteSet_discard t z))) = do_write_calls (log t) + 1"
  "fst (SqliteSet_remove t z) = Inr u \<Longrightarrow>
     do_write_calls (log (snd (SqliteSet_remove t z))) = do_write_calls (log t) + 1"
  "fst (SqliteSet_pop t) = Inr z \<Longrightarrow>
     do_write_calls (log (snd (SqliteSet_pop t))) = do_write_calls (log t) + 1"
  by (auto simp add: SqliteDict_setitem_def SqliteDict_delitem_def SqliteDict_pop_def
      SqliteDict_popitem_def SqliteSet_add_def SqliteSet_discard_def SqliteSet_remove_def
      SqliteSet_pop_def cursor_add_def cursor_discard_def cursor_remove_def Let_def
      split: sum.splits list.splits if_splits)

text \<open>
  C4. The specification says that every mutating operation, \<^verbatim>\<open>clear\<close> of the three
  containers included, calls \<^verbatim>\<open>_do_write\<close> once after its statement. \<^verbatim>\<open>clear\<close> of each
  container empties the table and issues its \<^verbatim>\<open>DELETE\<close> statement, and that is all: the
  record of engine calls gains no call of \<^verbatim>\<open>_do_write\<close>.
\<close>

theorem clear_without_do_write:
  "fst (SqliteList_clear l) = Inr () \<and> list_rows (snd (SqliteList_clear l)) = []
   \<and> log (snd (SqliteList_clear l)) = log l @ [Execute (DELETE_FROM (table_name l))]
   \<and> do_write_calls (log (snd (SqliteList_clear l))) = do_write_calls (log l)
   \<and> fst (SqliteDict_clear d) = Inr () \<and> dict_rows (snd (SqliteDict_clear d)) = []
   \<and> log (snd (SqliteDict_clear d)) = log d @ [Execute (DELETE_FROM (table_name d))]
   \<and> do_write_calls (log (snd (SqliteDict_clear d))) = do_write_calls (log d)
   \<and> fst (SqliteSet_clear t) = Inr () \<and> set_rows (snd (SqliteSet_clear t)) = []
   \<and> log (snd (SqliteSet_clear t)) = log t @ [Execute (DELETE_FROM (table_name t))]
   \<and> do_write_calls (log (snd (SqliteSet_clear t))) = do_write_calls (log t)"
  by (simp add: SqliteList_clear_def SqliteDict_clear_def SqliteSet_clear_def)

end
